theory Spec2Isabelle
  imports Main "HOL-Library.Word"
begin

unbundle bit_operations_syntax

section \<open>Structured logging and the request context\<close>

text \<open>
  The part of \<^verbatim>\<open>log/slog\<close> the server uses: a logger is the list of attributes
  bound to it by \<^verbatim>\<open>With\<close>; emitting a record puts the bound attributes in front of the
  call's own. A \<^verbatim>\<open>*slog.Logger\<close> is a pointer, so where the source passes one around it is
  a \<open>logger option\<close>, \<open>None\<close> being the nil pointer.
\<close>

datatype level = LevelInfo | LevelError

datatype attr_value = AStr string | AInt int

type_synonym attr = "string \<times> attr_value"

record logger =
  bound :: "attr list"

record log_record =
  lvl :: level
  msg :: string
  attrs :: "attr list"

definition logger_With :: "logger \<Rightarrow> attr list \<Rightarrow> logger" where
  "logger_With l args = l\<lparr>bound := bound l @ args\<rparr>"

definition logger_Info :: "logger \<Rightarrow> string \<Rightarrow> attr list \<Rightarrow> log_record" where
  "logger_Info l m args = \<lparr>lvl = LevelInfo, msg = m, attrs = bound l @ args\<rparr>"

definition logger_Error :: "logger \<Rightarrow> string \<Rightarrow> attr list \<Rightarrow> log_record" where
  "logger_Error l m args = \<lparr>lvl = LevelError, msg = m, attrs = bound l @ args\<rparr>"

text \<open>
  A \<^verbatim>\<open>context.Context\<close> as the two packages use it. The keys \<^verbatim>\<open>server.requestIDKey\<close>
  and \<^verbatim>\<open>logger.loggerKey\<close> have distinct unexported types, so each is a field of its
  own; \<^verbatim>\<open>context.WithValue\<close> shadows the earlier binding of its key. Only
  \<^verbatim>\<open>logger.WithContext\<close> can bind \<^verbatim>\<open>loggerKey\<close>, so the value bound there is always a
  \<^verbatim>\<open>*slog.Logger\<close>: \<open>Some None\<close> is a bound nil pointer, \<open>None\<close> no binding.
  \<open>ctx_span\<close> is the trace and span identifier of the valid span in the context, if any.
\<close>

record go_context =
  ctx_request_id :: "string option"
  ctx_logger :: "logger option option"
  ctx_span :: "(string \<times> string) option"

definition Background :: go_context where
  "Background = \<lparr>ctx_request_id = None, ctx_logger = None, ctx_span = None\<rparr>"

text \<open>\<^verbatim>\<open>logger.WithContext\<close> (platform/logger/context.go).\<close>

definition WithContext :: "go_context \<Rightarrow> logger option \<Rightarrow> go_context" where
  "WithContext c l = c\<lparr>ctx_logger := Some l\<rparr>"

text \<open>
  \<^verbatim>\<open>logger.FromContext\<close>. The comma-ok type assertion succeeds whenever a value of type
  \<^verbatim>\<open>*slog.Logger\<close> is bound, also a nil one, and that pointer is returned as it is;
  without a binding the result is \<^verbatim>\<open>slog.Default()\<close>, which is never nil and is the
  first argument here.
\<close>

definition FromContext :: "logger \<Rightarrow> go_context \<Rightarrow> logger option" where
  "FromContext dflt c = (case ctx_logger c of Some l \<Rightarrow> l | None \<Rightarrow> Some dflt)"

section \<open>HTTP requests and response writers\<close>

record request =
  Method :: string
  URL_Path :: string
  RemoteAddr :: string
  Header :: "string \<rightharpoonup> string"
  Query :: "string \<rightharpoonup> string"
  PathValue :: "string \<rightharpoonup> string"
  Context :: go_context

text \<open>\<^verbatim>\<open>Get\<close> on headers, query values and path values: the empty string when absent.\<close>

definition Get :: "(string \<rightharpoonup> string) \<Rightarrow> string \<Rightarrow> string" where
  "Get m k = (case m k of None \<Rightarrow> [] | Some v \<Rightarrow> v)"

abbreviation (input) StatusOK :: int where "StatusOK \<equiv> 200"
abbreviation (input) StatusNoContent :: int where "StatusNoContent \<equiv> 204"
abbreviation (input) StatusBadRequest :: int where "StatusBadRequest \<equiv> 400"
abbreviation (input) StatusNotFound :: int where "StatusNotFound \<equiv> 404"
abbreviation (input) StatusInternalServerError :: int where "StatusInternalServerError \<equiv> 500"
abbreviation (input) MethodOptions :: string where "MethodOptions \<equiv> ''OPTIONS''"

text \<open>
  The response writer that \<^verbatim>\<open>net/http\<close> hands to the outermost handler, by the documented
  contract of \<^verbatim>\<open>http.ResponseWriter\<close> (standard library, not part of the repository):
  the first \<^verbatim>\<open>WriteHeader\<close> with a final status fixes the status and the headers sent, a
  later one is ignored; a status outside 100..999 panics; a 1xx status other than 101 goes out
  as an interim response and leaves the final one open; \<^verbatim>\<open>Write\<close> before any
  \<^verbatim>\<open>WriteHeader\<close> sends 200 first; a handler that returns without writing gets 200.
  HEAD requests, hijacking and flushing are outside the model.
\<close>

type_synonym panic = string

record response =
  handlerHeader :: "string \<rightharpoonup> string"
  wroteHeader :: bool
  status :: int
  sentHeader :: "string \<rightharpoonup> string"
  interim :: "int list"
  body :: string

definition new_response :: response where
  "new_response = \<lparr>handlerHeader = Map.empty, wroteHeader = False, status = 0,
     sentHeader = Map.empty, interim = [], body = []\<rparr>"

definition response_Header_Set :: "string \<Rightarrow> string \<Rightarrow> response \<Rightarrow> response" where
  "response_Header_Set k v w = w\<lparr>handlerHeader := (handlerHeader w)(k \<mapsto> v)\<rparr>"

definition response_WriteHeader :: "int \<Rightarrow> response \<Rightarrow> response \<times> panic option" where
  "response_WriteHeader code w =
     (if wroteHeader w then (w, None)
      else if code < 100 \<or> code > 999 then (w, Some ''invalid WriteHeader code'')
      else if 100 \<le> code \<and> code \<le> 199 \<and> code \<noteq> 101
        then (w\<lparr>interim := interim w @ [code]\<rparr>, None)
      else (w\<lparr>wroteHeader := True, status := code, sentHeader := handlerHeader w\<rparr>, None))"

definition bodyAllowedForStatus :: "int \<Rightarrow> bool" where
  "bodyAllowedForStatus s =
     (if 100 \<le> s \<and> s \<le> 199 then False
      else if s = 204 then False
      else if s = 304 then False
      else True)"

definition response_Write :: "string \<Rightarrow> response \<Rightarrow> response \<times> int" where
  "response_Write b w =
     (let w' = (if wroteHeader w then w
                else w\<lparr>wroteHeader := True, status := StatusOK, sentHeader := handlerHeader w\<rparr>)
      in if bodyAllowedForStatus (status w')
         then (w'\<lparr>body := body w' @ b\<rparr>, int (length b))
         else (w', 0))"

text \<open>What the server does when the outermost handler has returned.\<close>

definition finishRequest :: "response \<Rightarrow> response" where
  "finishRequest w =
     (if wroteHeader w then w
      else w\<lparr>wroteHeader := True, status := StatusOK, sentHeader := handlerHeader w\<rparr>)"

text \<open>\<^verbatim>\<open>responseWriter\<close> of middleware.go, with its two overriding methods.\<close>

record responseWriter =
  ResponseWriter :: response
  statusCode :: int
  bytesWritten :: int

definition rw_WriteHeader :: "int \<Rightarrow> responseWriter \<Rightarrow> responseWriter \<times> panic option" where
  "rw_WriteHeader code rw =
     (let rw1 = rw\<lparr>statusCode := code\<rparr>;
          (w', p) = response_WriteHeader code (ResponseWriter rw1)
      in (rw1\<lparr>ResponseWriter := w'\<rparr>, p))"

definition rw_Write :: "string \<Rightarrow> responseWriter \<Rightarrow> responseWriter" where
  "rw_Write b rw =
     (let (w', n) = response_Write b (ResponseWriter rw)
      in rw\<lparr>ResponseWriter := w', bytesWritten := bytesWritten rw + n\<rparr>)"

text \<open>The embedded \<^verbatim>\<open>Header()\<close> of the wrapper is that of the wrapped writer.\<close>

definition rw_Header_Set :: "string \<Rightarrow> string \<Rightarrow> responseWriter \<Rightarrow> responseWriter" where
  "rw_Header_Set k v rw = rw\<lparr>ResponseWriter := response_Header_Set k v (ResponseWriter rw)\<rparr>"

section \<open>Identifiers, rows and the store\<close>

text \<open>
  A \<^verbatim>\<open>uuid.UUID\<close> is an array of 16 bytes; \<^verbatim>\<open>String()\<close> is the canonical
  8-4-4-4-12 lower-case hexadecimal form.
\<close>

type_synonym uuid = "8 word list"

definition hexdigit :: "8 word \<Rightarrow> char" where
  "hexdigit n = ''0123456789abcdef'' ! unat (n AND 15)"

definition hex_byte :: "8 word \<Rightarrow> string" where
  "hex_byte b = [hexdigit (drop_bit 4 b), hexdigit b]"

definition encodeHex :: "8 word list \<Rightarrow> string" where
  "encodeHex bs = concat (map hex_byte bs)"

definition uuid_String :: "uuid \<Rightarrow> string" where
  "uuid_String u =
     encodeHex (take 4 u) @ ''-'' @ encodeHex (take 2 (drop 4 u)) @ ''-'' @
     encodeHex (take 2 (drop 6 u)) @ ''-'' @ encodeHex (take 2 (drop 8 u)) @ ''-'' @
     encodeHex (drop 10 u)"

definition uuid_Nil :: uuid where
  "uuid_Nil = replicate 16 0"

record pgtype_UUID =
  Bytes :: uuid
  Valid :: bool

text \<open>
  The rows of the generated \<^verbatim>\<open>db\<close> package (\<^verbatim>\<open>GetUserByIDRow\<close> and
  \<^verbatim>\<open>ListUsersRow\<close> have the same columns) and the \<^verbatim>\<open>User\<close> of the service; the
  fields are those handler.go reads and writes. Timestamps are integers.
\<close>

record UserRow =
  row_ID :: pgtype_UUID
  row_Email :: string
  row_Name :: string
  row_CreatedAt :: int
  row_UpdatedAt :: int

record User =
  ID :: uuid
  Email :: string
  Name :: string
  CreatedAt :: int
  UpdatedAt :: int

record ListUsersParams =
  Limit :: "32 word"
  Offset :: "32 word"

text \<open>
  Errors of the store: \<^verbatim>\<open>pgx.ErrNoRows\<close>, any other failure of the driver, and either
  of them wrapped. They come from the database driver, which cannot name the sentinel of the
  \<^verbatim>\<open>users\<close> package, so the errors of the service are a type of their own.
\<close>

datatype db_error = ErrNoRows | DriverError string | Wrapped string db_error

text \<open>\<^verbatim>\<open>errors.Is(err, pgx.ErrNoRows)\<close>: the error or one it wraps is the sentinel.\<close>

fun Is_ErrNoRows :: "db_error \<Rightarrow> bool" where
  "Is_ErrNoRows ErrNoRows = True"
| "Is_ErrNoRows (DriverError m) = False"
| "Is_ErrNoRows (Wrapped m e) = Is_ErrNoRows e"

fun db_error_Error :: "db_error \<Rightarrow> string" where
  "db_error_Error ErrNoRows = ''no rows in result set''"
| "db_error_Error (DriverError m) = m"
| "db_error_Error (Wrapped m e) = m @ '': '' @ db_error_Error e"

datatype svc_error = ErrUserNotFound | ScanError | StoreError db_error

fun svc_error_Error :: "svc_error \<Rightarrow> string" where
  "svc_error_Error ErrUserNotFound = ''user not found''"
| "svc_error_Error ScanError = ''cannot scan UUID''"
| "svc_error_Error (StoreError e) = db_error_Error e"

text \<open>The \<^verbatim>\<open>Querier\<close> interface: any implementation, as its two methods.\<close>

record Querier =
  Querier_GetUserByID :: "pgtype_UUID \<Rightarrow> db_error + UserRow"
  Querier_ListUsers :: "ListUsersParams \<Rightarrow> db_error + UserRow list"

datatype store_call = CallGetUserByID pgtype_UUID | CallListUsers ListUsersParams

text \<open>
  Library functions the handlers call, taken as parameters: \<^verbatim>\<open>uuid.Parse\<close>,
  \<^verbatim>\<open>pgtype.UUID.Scan\<close> on a string, and \<^verbatim>\<open>json.Encoder.Encode\<close> (the bytes written
  for a value, or an error). \<open>None\<close> is the error return.
\<close>

datatype json = JString string | JInt int | JUser User | JUsers "User list"
  | JObject "(string \<times> json) list"

record libs =
  uuid_Parse :: "string \<Rightarrow> uuid option"
  pgtype_Scan :: "string \<Rightarrow> pgtype_UUID option"
  json_Encode :: "json \<Rightarrow> string option"

section \<open>Handlers as sequences of effects\<close>

text \<open>
  What a handler does to its response writer, the store and the log during one request, in
  order. \<open>Panic\<close> is a panic raised by the handler; nothing after it is executed.
\<close>

datatype action =
    Header_Set string string
  | WriteHeader int
  | Write string
  | Panic panic
  | StoreCall store_call
  | Log log_record

record 'w env =
  writer :: 'w
  logs :: "log_record list"
  calls :: "store_call list"

type_synonym 'w handler = "'w env \<Rightarrow> request \<Rightarrow> 'w env \<times> panic option"

fun step :: "action \<Rightarrow> responseWriter env \<Rightarrow> responseWriter env \<times> panic option" where
  "step (Header_Set k v) e = (e\<lparr>writer := rw_Header_Set k v (writer e)\<rparr>, None)"
| "step (WriteHeader c) e = (let (w, p) = rw_WriteHeader c (writer e) in (e\<lparr>writer := w\<rparr>, p))"
| "step (Write b) e = (e\<lparr>writer := rw_Write b (writer e)\<rparr>, None)"
| "step (Panic v) e = (e, Some v)"
| "step (StoreCall c) e = (e\<lparr>calls := calls e @ [c]\<rparr>, None)"
| "step (Log r) e = (e\<lparr>logs := logs e @ [r]\<rparr>, None)"

fun run :: "action list \<Rightarrow> responseWriter env \<Rightarrow> responseWriter env \<times> panic option" where
  "run [] e = (e, None)"
| "run (a # as) e =
     (case step a e of (e', Some v) \<Rightarrow> (e', Some v) | (e', None) \<Rightarrow> run as e')"

text \<open>The handler the middleware wraps (the route multiplexer), given by what it does.\<close>

definition ServeHTTP :: "(request \<Rightarrow> action list) \<Rightarrow> responseWriter handler" where
  "ServeHTTP h e r = run (h r) e"

text \<open>
  \<^verbatim>\<open>http.Error\<close> (standard library): content type, \<^verbatim>\<open>nosniff\<close>, the status, the
  message and a newline.
\<close>

definition http_Error :: "string \<Rightarrow> int \<Rightarrow> responseWriter env \<Rightarrow> responseWriter env \<times> panic option" where
  "http_Error m code e =
     run [Header_Set ''Content-Type'' ''text/plain; charset=utf-8'',
          Header_Set ''X-Content-Type-Options'' ''nosniff'',
          WriteHeader code,
          Write (m @ [CHR 0x0A])] e"

section \<open>The middleware chain (server/middleware.go)\<close>

text \<open>
  The fields of \<^verbatim>\<open>Server\<close> the middleware reads, and the process-wide default logger
  that \<^verbatim>\<open>slog.Default()\<close> returns. main.go builds the logger with \<^verbatim>\<open>slog.New\<close>, so
  it is not nil.
\<close>

record Server =
  Telemetry_Enabled :: bool
  server_logger :: logger
  slog_Default :: logger

text \<open>
  \<^verbatim>\<open>recoveryMiddleware\<close>. In the chain its writer is the \<^verbatim>\<open>responseWriter\<close> of the
  logging stage. Calling \<^verbatim>\<open>Error\<close> on a nil \<^verbatim>\<open>*slog.Logger\<close> panics inside the
  deferred function.
\<close>

definition recoveryMiddleware :: "Server \<Rightarrow> responseWriter handler \<Rightarrow> responseWriter handler" where
  "recoveryMiddleware s next e r =
     (case next e r of
        (e', None) \<Rightarrow> (e', None)
      | (e', Some err) \<Rightarrow>
          (case FromContext (slog_Default s) (Context r) of
             None \<Rightarrow> (e', Some ''nil pointer dereference'')
           | Some reqLogger \<Rightarrow>
               http_Error ''Internal Server Error'' StatusInternalServerError
                 (e'\<lparr>logs := logs e' @
                    [logger_Error reqLogger ''panic recovered''
                       [(''error'', AStr err), (''stack'', AStr ''stack trace would go here'')]]\<rparr>)))"

text \<open>
  \<^verbatim>\<open>loggingMiddleware\<close>; \<open>elapsed\<close> is what \<^verbatim>\<open>time.Since(start)\<close> reads. The
  completion record is written after \<^verbatim>\<open>next.ServeHTTP\<close> returns, not in a deferred call:
  a panic that leaves \<open>next\<close> skips it.
\<close>

definition loggingMiddleware :: "Server \<Rightarrow> int \<Rightarrow> responseWriter handler \<Rightarrow> response handler" where
  "loggingMiddleware s elapsed next e r =
     (let requestID = (case ctx_request_id (Context r) of Some i \<Rightarrow> i | None \<Rightarrow> []);
          (traceID, spanID) =
            (if Telemetry_Enabled s
             then (case ctx_span (Context r) of Some ts \<Rightarrow> ts | None \<Rightarrow> ([], []))
             else ([], []));
          requestLogger0 = logger_With (server_logger s)
            [(''request_id'', AStr requestID), (''method'', AStr (Method r)),
             (''path'', AStr (URL_Path r)), (''remote_addr'', AStr (RemoteAddr r))];
          requestLogger =
            (if traceID \<noteq> []
             then logger_With requestLogger0 [(''trace_id'', AStr traceID), (''span_id'', AStr spanID)]
             else requestLogger0);
          ctx = WithContext (Context r) (Some requestLogger);
          wrapped = \<lparr>ResponseWriter = writer e, statusCode = StatusOK, bytesWritten = 0\<rparr>;
          (e', p) = next \<lparr>writer = wrapped, logs = logs e, calls = calls e\<rparr> (r\<lparr>Context := ctx\<rparr>)
      in case p of
           Some v \<Rightarrow>
             (\<lparr>writer = ResponseWriter (writer e'), logs = logs e', calls = calls e'\<rparr>, Some v)
         | None \<Rightarrow>
             (\<lparr>writer = ResponseWriter (writer e'),
               logs = logs e' @
                 [logger_Info requestLogger ''request completed''
                    [(''status'', AInt (statusCode (writer e'))),
                     (''duration'', AInt elapsed),
                     (''bytes'', AInt (bytesWritten (writer e')))]],
               calls = calls e'\<rparr>, None))"

text \<open>\<^verbatim>\<open>requestIDMiddleware\<close>; \<open>new\<close> is the identifier \<^verbatim>\<open>uuid.New()\<close> draws.\<close>

definition requestIDMiddleware :: "uuid \<Rightarrow> response handler \<Rightarrow> response handler" where
  "requestIDMiddleware new next e r =
     (let requestID0 = Get (Header r) ''X-Request-ID'';
          requestID = (if requestID0 = [] then uuid_String new else requestID0);
          e1 = e\<lparr>writer := response_Header_Set ''X-Request-ID'' requestID (writer e)\<rparr>;
          ctx = (Context r)\<lparr>ctx_request_id := Some requestID\<rparr>
      in next e1 (r\<lparr>Context := ctx\<rparr>))"

definition corsMiddleware :: "response handler \<Rightarrow> response handler" where
  "corsMiddleware next e r =
     (let w1 = response_Header_Set ''Access-Control-Max-Age'' ''3600''
                (response_Header_Set ''Access-Control-Allow-Headers''
                   ''Content-Type, X-User-Email, X-Request-ID''
                (response_Header_Set ''Access-Control-Allow-Methods''
                   ''GET, POST, PUT, DELETE, OPTIONS''
                (response_Header_Set ''Access-Control-Allow-Origin'' ''*'' (writer e))))
      in if Method r = MethodOptions
         then (let (w2, p) = response_WriteHeader StatusNoContent w1 in (e\<lparr>writer := w2\<rparr>, p))
         else next (e\<lparr>writer := w1\<rparr>) r)"

definition applyMiddleware :: "Server \<Rightarrow> int \<Rightarrow> uuid \<Rightarrow> responseWriter handler \<Rightarrow> response handler" where
  "applyMiddleware s elapsed new h =
     corsMiddleware (requestIDMiddleware new (loggingMiddleware s elapsed (recoveryMiddleware s h)))"

text \<open>
  One request through the chain on a fresh response writer, with the log so far; the server
  completes the response when the chain returns. A panic that leaves the chain is the second
  component.
\<close>

definition serve :: "Server \<Rightarrow> int \<Rightarrow> uuid \<Rightarrow> (request \<Rightarrow> action list) \<Rightarrow> log_record list \<Rightarrow> request
    \<Rightarrow> response env \<times> panic option" where
  "serve s elapsed new h lg r =
     (let (e, p) = applyMiddleware s elapsed new (ServeHTTP h)
                     \<lparr>writer = new_response, logs = lg, calls = []\<rparr> r
      in (e\<lparr>writer := finishRequest (writer e)\<rparr>, p))"

text \<open>
  A running instance serving requests one after the other, each with its own clock and
  identifier readings; it stops at the first panic that leaves the chain. The result is the
  responses written and the log.
\<close>

fun serve_all :: "Server \<Rightarrow> (request \<Rightarrow> action list) \<Rightarrow> log_record list \<Rightarrow> (int \<times> uuid \<times> request) list
    \<Rightarrow> response list \<times> log_record list" where
  "serve_all s h lg [] = ([], lg)"
| "serve_all s h lg ((elapsed, new, r) # rs) =
     (case serve s elapsed new h lg r of
        (e, Some v) \<Rightarrow> ([], logs e)
      | (e, None) \<Rightarrow> (let (ws, lg') = serve_all s h (logs e) rs in (writer e # ws, lg')))"

definition completion_records :: "log_record list \<Rightarrow> log_record list" where
  "completion_records lg = filter (\<lambda>r. msg r = ''request completed'') lg"

definition status_attr :: "log_record \<Rightarrow> attr_value option" where
  "status_attr r = map_of (rev (attrs r)) ''status''"

section \<open>The users service and its handlers (users/handler.go)\<close>

text \<open>Conversion of a row, as both service methods do it.\<close>

definition row_to_User :: "UserRow \<Rightarrow> User" where
  "row_to_User dbUser =
     \<lparr>ID = (if Valid (row_ID dbUser) then Bytes (row_ID dbUser) else uuid_Nil),
      Email = row_Email dbUser, Name = row_Name dbUser,
      CreatedAt = row_CreatedAt dbUser, UpdatedAt = row_UpdatedAt dbUser\<rparr>"

text \<open>
  \<^verbatim>\<open>Service.GetUserByID\<close>, with the calls it makes on the store. An error of the store
  that is not \<^verbatim>\<open>pgx.ErrNoRows\<close> is returned as it is.
\<close>

definition Service_GetUserByID :: "libs \<Rightarrow> Querier \<Rightarrow> uuid \<Rightarrow> store_call list \<times> (svc_error + User)" where
  "Service_GetUserByID L q uid =
     (case pgtype_Scan L (uuid_String uid) of
        None \<Rightarrow> ([], Inl ScanError)
      | Some pgID \<Rightarrow>
          (case Querier_GetUserByID q pgID of
             Inl err \<Rightarrow>
               if Is_ErrNoRows err then ([CallGetUserByID pgID], Inl ErrUserNotFound)
               else ([CallGetUserByID pgID], Inl (StoreError err))
           | Inr dbUser \<Rightarrow> ([CallGetUserByID pgID], Inr (row_to_User dbUser))))"

text \<open>
  \<^verbatim>\<open>Service.ListUsers\<close>. Go's \<^verbatim>\<open>int\<close> is 64 bits wide here and the two arguments are
  only compared, so they are integers; \<^verbatim>\<open>int32(...)\<close> keeps the low 32 bits.
\<close>

definition ListUsers_params :: "int \<Rightarrow> int \<Rightarrow> ListUsersParams" where
  "ListUsers_params limit offset =
     (let limit1 = (if limit \<le> 0 then 20 else limit);
          limit2 = (if limit1 > 100 then 100 else limit1);
          offset1 = (if offset < 0 then 0 else offset)
      in \<lparr>Limit = word_of_int limit2, Offset = word_of_int offset1\<rparr>)"

definition Service_ListUsers :: "Querier \<Rightarrow> int \<Rightarrow> int \<Rightarrow> store_call list \<times> (svc_error + User list)" where
  "Service_ListUsers q limit offset =
     (let arg = ListUsers_params limit offset
      in case Querier_ListUsers q arg of
           Inl err \<Rightarrow> ([CallListUsers arg], Inl (StoreError err))
         | Inr dbUsers \<Rightarrow> ([CallListUsers arg], Inr (map row_to_User dbUsers)))"

text \<open>\<^verbatim>\<open>Handler.respondWithJSON\<close> and \<^verbatim>\<open>respondWithError\<close>; \<open>hl\<close> is the handler's logger.\<close>

definition respondWithJSON :: "libs \<Rightarrow> logger \<Rightarrow> int \<Rightarrow> json \<Rightarrow> action list" where
  "respondWithJSON L hl code payload =
     [Header_Set ''Content-Type'' ''application/json'', WriteHeader code] @
     (case json_Encode L payload of
        Some b \<Rightarrow> [Write b]
      | None \<Rightarrow> [Log (logger_Error hl ''failed to encode response'' [(''error'', AStr ''json'')])])"

definition respondWithError :: "libs \<Rightarrow> logger \<Rightarrow> int \<Rightarrow> string \<Rightarrow> action list" where
  "respondWithError L hl code message =
     respondWithJSON L hl code (JObject [(''error'', JString message)])"

definition HandleGetUser :: "libs \<Rightarrow> Querier \<Rightarrow> logger \<Rightarrow> request \<Rightarrow> action list" where
  "HandleGetUser L q hl r =
     (let idStr = Get (PathValue r) ''id''
      in if idStr = [] then respondWithError L hl StatusBadRequest ''user ID is required''
         else case uuid_Parse L idStr of
                None \<Rightarrow> respondWithError L hl StatusBadRequest ''invalid user ID format''
              | Some userID \<Rightarrow>
                  (case Service_GetUserByID L q userID of
                     (cs, Inl err) \<Rightarrow>
                       if err = ErrUserNotFound
                       then map StoreCall cs @ respondWithError L hl StatusNotFound ''user not found''
                       else map StoreCall cs @
                            [Log (logger_Error hl ''failed to get user''
                                    [(''error'', AStr (svc_error_Error err)),
                                     (''user_id'', AStr (uuid_String userID))])] @
                            respondWithError L hl StatusInternalServerError ''internal server error''
                   | (cs, Inr user) \<Rightarrow>
                       map StoreCall cs @ respondWithJSON L hl StatusOK (JUser user)))"

text \<open>
  \<^verbatim>\<open>strconv.Atoi\<close> (standard library): an optional sign and decimal digits; an empty
  string, any other character and a value outside the 64-bit range are errors.
\<close>

definition digit_val :: "char \<Rightarrow> nat option" where
  "digit_val c = (let n = (of_char c :: nat) in if 48 \<le> n \<and> n \<le> 57 then Some (n - 48) else None)"

fun parse_digits :: "string \<Rightarrow> nat \<Rightarrow> nat option" where
  "parse_digits [] acc = Some acc"
| "parse_digits (c # cs) acc =
     (case digit_val c of None \<Rightarrow> None | Some d \<Rightarrow> parse_digits cs (10 * acc + d))"

definition Atoi :: "string \<Rightarrow> int option" where
  "Atoi s =
     (let (neg, ds) = (case s of
                         [] \<Rightarrow> (False, [])
                       | c # cs \<Rightarrow> if c = CHR ''-'' then (True, cs)
                                   else if c = CHR ''+'' then (False, cs)
                                   else (False, s))
      in if ds = [] then None
         else case parse_digits ds 0 of
                None \<Rightarrow> None
              | Some n \<Rightarrow>
                  (let v = (if neg then - int n else int n)
                   in if v < - (2 ^ 63) \<or> v > 2 ^ 63 - 1 then None else Some v))"

text \<open>A query parameter of \<^verbatim>\<open>HandleListUsers\<close>: the default when absent, \<open>None\<close> for the 400.\<close>

definition parse_param :: "string \<Rightarrow> int \<Rightarrow> int option" where
  "parse_param str dflt =
     (if str \<noteq> []
      then (case Atoi str of
              None \<Rightarrow> None
            | Some parsed \<Rightarrow> if parsed < 0 then None else Some parsed)
      else Some dflt)"

definition HandleListUsers :: "libs \<Rightarrow> Querier \<Rightarrow> logger \<Rightarrow> request \<Rightarrow> action list" where
  "HandleListUsers L q hl r =
     (let limitStr = Get (Query r) ''limit'';
          offsetStr = Get (Query r) ''offset''
      in case parse_param limitStr 20 of
           None \<Rightarrow> respondWithError L hl StatusBadRequest ''invalid limit parameter''
         | Some limit \<Rightarrow>
             (case parse_param offsetStr 0 of
                None \<Rightarrow> respondWithError L hl StatusBadRequest ''invalid offset parameter''
              | Some offset \<Rightarrow>
                  (case Service_ListUsers q limit offset of
                     (cs, Inl err) \<Rightarrow>
                       map StoreCall cs @
                       [Log (logger_Error hl ''failed to list users''
                               [(''error'', AStr (svc_error_Error err))])] @
                       respondWithError L hl StatusInternalServerError ''internal server error''
                   | (cs, Inr users) \<Rightarrow>
                       map StoreCall cs @
                       respondWithJSON L hl StatusOK
                         (JObject [(''users'', JUsers users), (''limit'', JInt limit),
                                   (''offset'', JInt offset)]))))"

text \<open>What a client reads off a handler: the response it gets when the handler runs alone.\<close>

definition respond :: "action list \<Rightarrow> response env \<times> panic option" where
  "respond script =
     (let (e, p) = run script
                     \<lparr>writer = \<lparr>ResponseWriter = new_response, statusCode = StatusOK, bytesWritten = 0\<rparr>,
                      logs = [], calls = []\<rparr>
      in (\<lparr>writer = finishRequest (ResponseWriter (writer e)), logs = logs e, calls = calls e\<rparr>, p))"

section \<open>Process lifecycle (cmd/server/main.go)\<close>

text \<open>
  \<^verbatim>\<open>main\<close> from the telemetry initialisation on, as the events it produces. The outcomes
  of the calls it makes are the inputs: an error of \<^verbatim>\<open>telemetry.Init\<close>, of
  \<^verbatim>\<open>database.Connect\<close>, and of \<^verbatim>\<open>srv.Shutdown\<close> (the drain timeout of 30 seconds
  elapsed) once the signal has arrived. Deferred calls run in reverse order when \<^verbatim>\<open>main\<close>
  returns; \<^verbatim>\<open>os.Exit\<close> ends the process without running them.
\<close>

datatype event =
    LogInfo string
  | LogError string
  | StartServer
  | SignalReceived
  | SrvShutdown
  | Cancel
  | DbPoolClose
  | TelemetryShutdown
  | ProcessExit int

definition os_Exit :: "event list \<Rightarrow> int \<Rightarrow> event list" where
  "os_Exit tr code = tr @ [ProcessExit code]"

definition return_from_main :: "event list \<Rightarrow> event list \<Rightarrow> event list" where
  "return_from_main tr defers = tr @ rev defers @ [ProcessExit 0]"

definition main :: "string option \<Rightarrow> string option \<Rightarrow> string option \<Rightarrow> event list" where
  "main initErr connectErr shutdownErr =
     (case initErr of
        Some e \<Rightarrow> os_Exit [LogError ''failed to initialize telemetry''] 1
      | None \<Rightarrow>
          (let defers1 = [TelemetryShutdown]
           in case connectErr of
                Some e \<Rightarrow> os_Exit [LogError ''failed to connect to database''] 1
              | None \<Rightarrow>
                  (let defers2 = defers1 @ [DbPoolClose];
                       tr = [LogInfo ''starting server'', StartServer, SignalReceived,
                             LogInfo ''shutting down server...''];
                       defers3 = defers2 @ [Cancel];
                       tr1 = tr @ [SrvShutdown]
                   in case shutdownErr of
                        Some e \<Rightarrow> os_Exit (tr1 @ [LogError ''server forced to shutdown'']) 1
                      | None \<Rightarrow> return_from_main (tr1 @ [LogInfo ''server exited'']) defers3)))"

text \<open>The calls on the store a sequence of effects contains.\<close>

fun store_calls :: "action list \<Rightarrow> store_call list" where
  "store_calls [] = []"
| "store_calls (StoreCall c # as) = c # store_calls as"
| "store_calls (a # as) = store_calls as"

text \<open>The body \<^verbatim>\<open>respondWithJSON\<close> writes for a value: nothing when the encoder fails.\<close>

definition encoded :: "libs \<Rightarrow> json \<Rightarrow> string" where
  "encoded L payload = (case json_Encode L payload of Some b \<Rightarrow> b | None \<Rightarrow> [])"

section \<open>Conditions on what a handler does\<close>

text \<open>
  \<open>orderly started script\<close>: the handler calls \<^verbatim>\<open>WriteHeader\<close> only while the response has
  not started, with a final status (101 or 200..999), and raises no panic once the response
  has started. \<open>started\<close> says whether the response has started before the script.
\<close>

fun orderly :: "bool \<Rightarrow> action list \<Rightarrow> bool" where
  "orderly st [] = True"
| "orderly st (WriteHeader c # as) =
     (\<not> st \<and> (c = 101 \<or> 200 \<le> c) \<and> c \<le> 999 \<and> orderly True as)"
| "orderly st (Write b # as) = orderly True as"
| "orderly st (Panic v # as) = (\<not> st)"
| "orderly st (Header_Set k v # as) = orderly st as"
| "orderly st (StoreCall c # as) = orderly st as"
| "orderly st (Log r # as) = orderly st as"

text \<open>The records a script logs, and the header keys it sets.\<close>

fun logged :: "action list \<Rightarrow> log_record list" where
  "logged [] = []"
| "logged (Log r # as) = r # logged as"
| "logged (a # as) = logged as"

fun header_keys :: "action list \<Rightarrow> string list" where
  "header_keys [] = []"
| "header_keys (Header_Set k v # as) = k # header_keys as"
| "header_keys (a # as) = header_keys as"

text \<open>
  The status the wrapper has recorded is the one the response carries, or still the initial
  200 while the response has not started; and a writer carries a header both in the header
  map and, once the response has started, among the headers sent.
\<close>

definition agrees :: "responseWriter \<Rightarrow> bool" where
  "agrees rw = (if wroteHeader (ResponseWriter rw) then statusCode rw = status (ResponseWriter rw)
                else statusCode rw = StatusOK)"

definition carries :: "string \<Rightarrow> string \<Rightarrow> response \<Rightarrow> bool" where
  "carries k v w = (handlerHeader w k = Some v \<and> (wroteHeader w \<longrightarrow> sentHeader w k = Some v))"

text \<open>
  What the chain hands to the handler it wraps when the request is not a pre-flight one: the
  correlation identifier, the logger of the logging stage, the request whose context holds
  both, and the wrapper around a writer that has the cross-origin headers and the
  identifier set. That these are the values of the chain is \<open>serve_non_options\<close> below.
\<close>

definition correlation_id :: "uuid \<Rightarrow> request \<Rightarrow> string" where
  "correlation_id new r =
     (if Get (Header r) ''X-Request-ID'' = [] then uuid_String new
      else Get (Header r) ''X-Request-ID'')"

definition requestLogger_of :: "Server \<Rightarrow> uuid \<Rightarrow> request \<Rightarrow> logger" where
  "requestLogger_of s new r =
     (let l0 = logger_With (server_logger s)
                 [(''request_id'', AStr (correlation_id new r)), (''method'', AStr (Method r)),
                  (''path'', AStr (URL_Path r)), (''remote_addr'', AStr (RemoteAddr r))]
      in case (if Telemetry_Enabled s then ctx_span (Context r) else None) of
           None \<Rightarrow> l0
         | Some (traceID, spanID) \<Rightarrow>
             if traceID \<noteq> []
             then logger_With l0 [(''trace_id'', AStr traceID), (''span_id'', AStr spanID)]
             else l0)"

definition inner_request :: "Server \<Rightarrow> uuid \<Rightarrow> request \<Rightarrow> request" where
  "inner_request s new r =
     r\<lparr>Context := (Context r)\<lparr>ctx_request_id := Some (correlation_id new r),
                                ctx_logger := Some (Some (requestLogger_of s new r))\<rparr>\<rparr>"

definition cors_headers :: "response \<Rightarrow> response" where
  "cors_headers w =
     response_Header_Set ''Access-Control-Max-Age'' ''3600''
       (response_Header_Set ''Access-Control-Allow-Headers''
          ''Content-Type, X-User-Email, X-Request-ID''
       (response_Header_Set ''Access-Control-Allow-Methods''
          ''GET, POST, PUT, DELETE, OPTIONS''
       (response_Header_Set ''Access-Control-Allow-Origin'' ''*'' w)))"

definition inner_env :: "uuid \<Rightarrow> log_record list \<Rightarrow> request \<Rightarrow> responseWriter env" where
  "inner_env new lg r =
     \<lparr>writer = \<lparr>ResponseWriter = response_Header_Set ''X-Request-ID'' (correlation_id new r)
                                   (cors_headers new_response),
                statusCode = StatusOK, bytesWritten = 0\<rparr>,
      logs = lg, calls = []\<rparr>"

text \<open>The state the panic-containment stage leaves, from what the handler left.\<close>

definition recovered :: "logger \<Rightarrow> responseWriter env \<times> panic option \<Rightarrow> responseWriter env" where
  "recovered rl res =
     (case res of
        (e1, None) \<Rightarrow> e1
      | (e1, Some v) \<Rightarrow>
          fst (http_Error ''Internal Server Error'' StatusInternalServerError
                 (e1\<lparr>logs := logs e1 @
                    [logger_Error rl ''panic recovered''
                       [(''error'', AStr v), (''stack'', AStr ''stack trace would go here'')]]\<rparr>)))"

section \<open>Fixtures\<close>

text \<open>
  Stand-ins for the collaborators, used where a statement is instantiated: a parser that
  accepts strings of 36 characters, an encoder that writes the same bytes for every value, a
  store without rows and a store whose driver fails.
\<close>

definition fake_libs :: libs where
  "fake_libs =
     \<lparr>uuid_Parse = (\<lambda>s. if length s = 36 then Some uuid_Nil else None),
      pgtype_Scan = (\<lambda>s. Some \<lparr>Bytes = uuid_Nil, Valid = True\<rparr>),
      json_Encode = (\<lambda>j. Some ''{}'')\<rparr>"

definition empty_store :: Querier where
  "empty_store =
     \<lparr>Querier_GetUserByID = (\<lambda>p. Inl ErrNoRows), Querier_ListUsers = (\<lambda>a. Inr [])\<rparr>"

definition broken_store :: Querier where
  "broken_store =
     \<lparr>Querier_GetUserByID = (\<lambda>p. Inl (DriverError ''connection refused'')),
      Querier_ListUsers = (\<lambda>a. Inl (DriverError ''connection refused''))\<rparr>"

definition base_logger :: logger where
  "base_logger = \<lparr>bound = []\<rparr>"

definition get_request :: "string \<Rightarrow> (string \<rightharpoonup> string) \<Rightarrow> (string \<rightharpoonup> string) \<Rightarrow> (string \<rightharpoonup> string) \<Rightarrow> request" where
  "get_request p hdr qry pv =
     \<lparr>Method = ''GET'', URL_Path = p, RemoteAddr = ''127.0.0.1:50000'', Header = hdr,
      Query = qry, PathValue = pv, Context = Background\<rparr>"

definition test_server :: Server where
  "test_server = \<lparr>Telemetry_Enabled = False, server_logger = base_logger, slog_Default = base_logger\<rparr>"

definition options_request :: "(string \<rightharpoonup> string) \<Rightarrow> request" where
  "options_request hdr =
     \<lparr>Method = ''OPTIONS'', URL_Path = ''/api/v1/users'', RemoteAddr = ''127.0.0.1:50000'',
      Header = hdr, Query = Map.empty, PathValue = Map.empty, Context = Background\<rparr>"

text \<open>A handler that panics on the path \<^verbatim>\<open>/boom\<close> and answers 200 on any other.\<close>

definition healthy :: "request \<Rightarrow> action list" where
  "healthy r = [Header_Set ''Content-Type'' ''application/json'', WriteHeader StatusOK,
                Write ''healthy'']"

definition flaky :: "request \<Rightarrow> action list" where
  "flaky r = (if URL_Path r = ''/boom'' then [Panic ''boom''] else healthy r)"

text \<open>
  A handler that panics after it has started its response, and one that sends an interim
  103 response before its body.
\<close>

definition late_panic :: "request \<Rightarrow> action list" where
  "late_panic r = [Write ''partial'', Panic ''boom'']"

definition early_hints :: "request \<Rightarrow> action list" where
  "early_hints r = [WriteHeader 103, Write ''done'']"

section \<open>Properties of the middleware chain\<close>


lemma run_orderly:
  "orderly (wroteHeader (ResponseWriter (writer e))) sc \<Longrightarrow> agrees (writer e) \<Longrightarrow>
   run sc e = (e', p) \<Longrightarrow>
     (case p of None \<Rightarrow> agrees (writer e')
      | Some v \<Rightarrow> \<not> wroteHeader (ResponseWriter (writer e')))"
proof (induction sc arbitrary: e)
  case Nil
  then show ?case by simp
next
  case (Cons a sc)
  show ?case
  proof (cases a)
    case (Header_Set k v)
    with Cons.prems show ?thesis
      by (intro Cons.IH [of "e\<lparr>writer := rw_Header_Set k v (writer e)\<rparr>"])
         (simp_all add: rw_Header_Set_def response_Header_Set_def agrees_def)
  next
    case (WriteHeader c)
    let ?e = "e\<lparr>writer := fst (rw_WriteHeader c (writer e))\<rparr>"
    from Cons.prems WriteHeader have nw: "\<not> wroteHeader (ResponseWriter (writer e))"
      and c: "c = 101 \<or> 200 \<le> c" "c \<le> 999" and o: "orderly True sc"
      by simp_all
    have s: "step a e = (?e, None)"
      using nw c WriteHeader
      by (auto simp: rw_WriteHeader_def response_WriteHeader_def Let_def)
    have w: "wroteHeader (ResponseWriter (writer ?e))" "agrees (writer ?e)"
      using nw c by (auto simp: rw_WriteHeader_def response_WriteHeader_def Let_def agrees_def)
    show ?thesis
      using Cons.IH [of ?e] o w Cons.prems(3) s by simp
  next
    case (Write b)
    let ?e = "e\<lparr>writer := rw_Write b (writer e)\<rparr>"
    have w: "wroteHeader (ResponseWriter (writer ?e))" "agrees (writer ?e)"
      using Cons.prems(2)
      by (auto simp: rw_Write_def response_Write_def Let_def agrees_def split: if_splits)
    show ?thesis
      using Cons.IH [of ?e] w Cons.prems Write by simp
  next
    case (Panic v)
    with Cons.prems show ?thesis by auto
  next
    case (StoreCall c)
    with Cons.prems show ?thesis
      by (intro Cons.IH [of "e\<lparr>calls := calls e @ [c]\<rparr>"]) simp_all
  next
    case (Log l)
    with Cons.prems show ?thesis
      by (intro Cons.IH [of "e\<lparr>logs := logs e @ [l]\<rparr>"]) simp_all
  qed
qed

lemma run_logs:
  "\<exists>ls. logs (fst (run sc e)) = logs e @ ls \<and> set ls \<subseteq> set (logged sc)"
proof (induction sc arbitrary: e)
  case Nil
  then show ?case by simp
next
  case (Cons a sc)
  show ?case
  proof (cases a)
    case (Header_Set k v)
    then show ?thesis
      using Cons.IH [of "e\<lparr>writer := rw_Header_Set k v (writer e)\<rparr>"] by simp
  next
    case (WriteHeader c)
    then show ?thesis
      using Cons.IH [of "e\<lparr>writer := fst (rw_WriteHeader c (writer e))\<rparr>"]
      by (cases "snd (rw_WriteHeader c (writer e))") (auto simp: split_beta)
  next
    case (Write b)
    then show ?thesis
      using Cons.IH [of "e\<lparr>writer := rw_Write b (writer e)\<rparr>"] by simp
  next
    case (Panic v)
    then show ?thesis by simp
  next
    case (StoreCall c)
    then show ?thesis
      using Cons.IH [of "e\<lparr>calls := calls e @ [c]\<rparr>"] by simp
  next
    case (Log l)
    then show ?thesis
      using Cons.IH [of "e\<lparr>logs := logs e @ [l]\<rparr>"] by auto
  qed
qed

lemma run_carries:
  "k \<notin> set (header_keys sc) \<Longrightarrow> carries k v (ResponseWriter (writer e)) \<Longrightarrow>
   carries k v (ResponseWriter (writer (fst (run sc e))))"
proof (induction sc arbitrary: e)
  case Nil
  then show ?case by simp
next
  case (Cons a sc)
  show ?case
  proof (cases a)
    case (Header_Set k' v')
    with Cons.prems have "carries k v (ResponseWriter (writer (e\<lparr>writer := rw_Header_Set k' v' (writer e)\<rparr>)))"
      by (auto simp: carries_def rw_Header_Set_def response_Header_Set_def)
    with Cons.prems Header_Set show ?thesis
      using Cons.IH [of "e\<lparr>writer := rw_Header_Set k' v' (writer e)\<rparr>"] by simp
  next
    case (WriteHeader c)
    have "carries k v (ResponseWriter (writer (e\<lparr>writer := fst (rw_WriteHeader c (writer e))\<rparr>)))"
      using Cons.prems(2)
      by (auto simp: carries_def rw_WriteHeader_def response_WriteHeader_def Let_def)
    with Cons.prems WriteHeader show ?thesis
      using Cons.IH [of "e\<lparr>writer := fst (rw_WriteHeader c (writer e))\<rparr>"]
      by (cases "snd (rw_WriteHeader c (writer e))") (auto simp: split_beta)
  next
    case (Write b)
    have "carries k v (ResponseWriter (writer (e\<lparr>writer := rw_Write b (writer e)\<rparr>)))"
      using Cons.prems(2)
      by (auto simp: carries_def rw_Write_def response_Write_def Let_def)
    with Cons.prems Write show ?thesis
      using Cons.IH [of "e\<lparr>writer := rw_Write b (writer e)\<rparr>"] by simp
  next
    case (Panic v)
    with Cons.prems show ?thesis by simp
  next
    case (StoreCall c)
    with Cons.prems show ?thesis
      using Cons.IH [of "e\<lparr>calls := calls e @ [c]\<rparr>"] by simp
  next
    case (Log l)
    with Cons.prems show ?thesis
      using Cons.IH [of "e\<lparr>logs := logs e @ [l]\<rparr>"] by simp
  qed
qed

text \<open>\<^verbatim>\<open>http.Error\<close> with the status 500 returns normally, whatever the state of the writer.\<close>

lemma http_Error_returns: "snd (http_Error m 500 e) = None"
  by (simp add: http_Error_def rw_WriteHeader_def response_WriteHeader_def Let_def split_beta)

lemma http_Error_statusCode: "statusCode (writer (fst (http_Error m 500 e))) = 500"
  by (simp add: http_Error_def rw_WriteHeader_def response_WriteHeader_def Let_def split_beta
        rw_Write_def rw_Header_Set_def)

lemma http_Error_logs: "logs (fst (http_Error m 500 e)) = logs e"
  using run_logs [of "[Header_Set ''Content-Type'' ''text/plain; charset=utf-8'',
          Header_Set ''X-Content-Type-Options'' ''nosniff'', WriteHeader 500,
          Write (m @ [CHR 0x0A])]" e]
  by (simp add: http_Error_def)

lemma http_Error_calls: "calls (fst (http_Error m 500 e)) = calls e"
  by (simp add: http_Error_def rw_WriteHeader_def response_WriteHeader_def Let_def split_beta)

lemma http_Error_fresh:
  assumes "\<not> wroteHeader (ResponseWriter (writer e))"
  shows "status (ResponseWriter (writer (fst (http_Error m 500 e)))) = 500"
    and "wroteHeader (ResponseWriter (writer (fst (http_Error m 500 e))))"
    and "body (ResponseWriter (writer (fst (http_Error m 500 e)))) =
           body (ResponseWriter (writer e)) @ m @ [CHR 0x0A]"
    and "agrees (writer (fst (http_Error m 500 e)))"
  using assms
  by (simp_all add: http_Error_def rw_WriteHeader_def response_WriteHeader_def Let_def split_beta
        rw_Write_def response_Write_def rw_Header_Set_def response_Header_Set_def agrees_def
        bodyAllowedForStatus_def)

lemma http_Error_carries:
  assumes "k \<noteq> ''Content-Type''" "k \<noteq> ''X-Content-Type-Options''"
    and "carries k v (ResponseWriter (writer e))"
  shows "carries k v (ResponseWriter (writer (fst (http_Error m 500 e))))"
  unfolding http_Error_def using assms by (intro run_carries) simp_all

lemma recovery_cases:
  "recoveryMiddleware s (ServeHTTP h) e r =
     (case FromContext (slog_Default s) (Context r) of
        Some rl \<Rightarrow> (recovered rl (run (h r) e), None)
      | None \<Rightarrow> (fst (run (h r) e),
                  case snd (run (h r) e) of None \<Rightarrow> None
                  | Some v \<Rightarrow> Some ''nil pointer dereference''))"
  by (auto simp: recoveryMiddleware_def ServeHTTP_def prod_eq_iff http_Error_returns recovered_def
      split: prod.splits option.splits)

text \<open>
  A request other than a pre-flight one, through the whole chain: the handler runs on
  \<open>inner_request\<close> in \<open>inner_env\<close>, the panic-containment stage leaves \<open>recovered\<close>, the
  logging stage appends its record, and no panic leaves the chain.
\<close>

lemma serve_non_options:
  assumes "Method r \<noteq> ''OPTIONS''"
  shows "serve s elapsed new h lg r =
           (let e2 = recovered (requestLogger_of s new r)
                       (run (h (inner_request s new r)) (inner_env new lg r))
            in (\<lparr>writer = finishRequest (ResponseWriter (writer e2)),
                 logs = logs e2 @
                   [logger_Info (requestLogger_of s new r) ''request completed''
                      [(''status'', AInt (statusCode (writer e2))), (''duration'', AInt elapsed),
                       (''bytes'', AInt (bytesWritten (writer e2)))]],
                 calls = calls e2\<rparr>, None))"
  using assms
  by (simp add: serve_def applyMiddleware_def corsMiddleware_def requestIDMiddleware_def
        loggingMiddleware_def recovery_cases FromContext_def WithContext_def Let_def split_beta
        requestLogger_of_def inner_request_def inner_env_def cors_headers_def correlation_id_def
      split: option.splits)

text \<open>A pre-flight request is answered by the origin-policy stage alone.\<close>

lemma serve_options:
  assumes "Method r = ''OPTIONS''"
  shows "serve s elapsed new h lg r =
           (\<lparr>writer = (cors_headers new_response)
                \<lparr>wroteHeader := True, status := 204,
                 sentHeader := handlerHeader (cors_headers new_response)\<rparr>,
             logs = lg, calls = []\<rparr>, None)"
  using assms
  by (simp add: serve_def applyMiddleware_def corsMiddleware_def Let_def cors_headers_def
        response_WriteHeader_def response_Header_Set_def new_response_def finishRequest_def)

lemma serve_returns: "snd (serve s elapsed new h lg r) = None"
  by (cases "Method r = ''OPTIONS''") (simp_all add: serve_options serve_non_options Let_def)

lemma run_writer_indep:
  "writer e = writer e' \<Longrightarrow>
   writer (fst (run sc e)) = writer (fst (run sc e')) \<and> snd (run sc e) = snd (run sc e')"
proof (induction sc arbitrary: e e')
  case Nil
  then show ?case by simp
next
  case (Cons a sc)
  show ?case
  proof (cases a)
    case (Header_Set k v)
    then show ?thesis
      using Cons.IH [of "e\<lparr>writer := rw_Header_Set k v (writer e)\<rparr>"
          "e'\<lparr>writer := rw_Header_Set k v (writer e')\<rparr>"] Cons.prems by simp
  next
    case (WriteHeader c)
    then show ?thesis
      using Cons.IH [of "e\<lparr>writer := fst (rw_WriteHeader c (writer e))\<rparr>"
          "e'\<lparr>writer := fst (rw_WriteHeader c (writer e'))\<rparr>"] Cons.prems
      by (cases "snd (rw_WriteHeader c (writer e'))") (simp_all add: split_beta)
  next
    case (Write b)
    then show ?thesis
      using Cons.IH [of "e\<lparr>writer := rw_Write b (writer e)\<rparr>"
          "e'\<lparr>writer := rw_Write b (writer e')\<rparr>"] Cons.prems by simp
  next
    case (Panic v)
    then show ?thesis using Cons.prems by simp
  next
    case (StoreCall c)
    then show ?thesis
      using Cons.IH [of "e\<lparr>calls := calls e @ [c]\<rparr>" "e'\<lparr>calls := calls e' @ [c]\<rparr>"] Cons.prems
      by simp
  next
    case (Log l)
    then show ?thesis
      using Cons.IH [of "e\<lparr>logs := logs e @ [l]\<rparr>" "e'\<lparr>logs := logs e' @ [l]\<rparr>"] Cons.prems
      by simp
  qed
qed

lemma recovered_writer_indep:
  assumes "writer e = writer e'"
  shows "writer (recovered rl (run sc e)) = writer (recovered rl (run sc e'))"
proof -
  note i = run_writer_indep [OF assms, of sc]
  show ?thesis
  proof (cases "snd (run sc e)")
    case None
    with i show ?thesis
      by (simp add: recovered_def split_beta)
  next
    case (Some v)
    with i have s: "snd (run sc e') = Some v" by simp
    have "writer (fst (http_Error m 500 (fst (run sc e)\<lparr>logs := l1\<rparr>))) =
          writer (fst (http_Error m 500 (fst (run sc e')\<lparr>logs := l2\<rparr>)))" for m l1 l2
      unfolding http_Error_def using i by (intro run_writer_indep [THEN conjunct1]) simp
    with Some s show ?thesis
      by (simp add: recovered_def split_beta)
  qed
qed

text \<open>The response to a request does not depend on what was logged before.\<close>

lemma serve_writer_indep:
  "writer (fst (serve s elapsed new h lg r)) = writer (fst (serve s elapsed new h [] r))"
proof (cases "Method r = ''OPTIONS''")
  case True
  then show ?thesis by (simp add: serve_options)
next
  case False
  have "writer (inner_env new lg r) = writer (inner_env new [] r)"
    by (simp add: inner_env_def)
  from recovered_writer_indep [OF this] False show ?thesis
    by (simp add: serve_non_options Let_def)
qed

lemma serve_all_responses:
  "fst (serve_all s h lg rs) =
     map (\<lambda>(elapsed, new, r). writer (fst (serve s elapsed new h [] r))) rs"
proof (induction rs arbitrary: lg)
  case Nil
  then show ?case by simp
next
  case (Cons x rs)
  obtain elapsed new r where x: "x = (elapsed, new, r)"
    by (cases x)
  obtain e where e: "serve s elapsed new h lg r = (e, None)"
    using serve_returns [of s elapsed new h lg r] by (cases "serve s elapsed new h lg r") simp
  have w: "writer e = writer (fst (serve s elapsed new h [] r))"
    using serve_writer_indep [of s elapsed new h lg r] e by simp
  show ?case
    using Cons.IH [of "logs e"] e w x by (simp add: split_beta)
qed

lemma run_body_unstarted:
  "(\<not> wroteHeader (ResponseWriter (writer e)) \<longrightarrow> body (ResponseWriter (writer e)) = []) \<Longrightarrow>
   \<not> wroteHeader (ResponseWriter (writer (fst (run sc e)))) \<Longrightarrow>
   body (ResponseWriter (writer (fst (run sc e)))) = []"
proof (induction sc arbitrary: e)
  case Nil
  then show ?case by simp
next
  case (Cons a sc)
  show ?case
  proof (cases a)
    case (Header_Set k v)
    then show ?thesis
      using Cons.IH [of "e\<lparr>writer := rw_Header_Set k v (writer e)\<rparr>"] Cons.prems
      by (simp add: rw_Header_Set_def response_Header_Set_def)
  next
    case (WriteHeader c)
    let ?e = "e\<lparr>writer := fst (rw_WriteHeader c (writer e))\<rparr>"
    have b: "body (ResponseWriter (writer ?e)) = body (ResponseWriter (writer e))"
      and w: "wroteHeader (ResponseWriter (writer e)) \<longrightarrow> wroteHeader (ResponseWriter (writer ?e))"
      by (simp_all add: rw_WriteHeader_def response_WriteHeader_def Let_def split_beta)
    show ?thesis
    proof (cases "snd (rw_WriteHeader c (writer e))")
      case None
      have "\<not> wroteHeader (ResponseWriter (writer ?e)) \<longrightarrow> body (ResponseWriter (writer ?e)) = []"
        using Cons.prems(1) b w by auto
      from Cons.IH [OF this] Cons.prems(2) None WriteHeader show ?thesis
        by (simp add: split_beta)
    next
      case (Some v)
      with Cons.prems WriteHeader b w show ?thesis
        by (auto simp: split_beta)
    qed
  next
    case (Write b)
    have "wroteHeader (ResponseWriter (writer (e\<lparr>writer := rw_Write b (writer e)\<rparr>)))"
      by (simp add: rw_Write_def response_Write_def Let_def)
    then show ?thesis
      using Cons.IH [of "e\<lparr>writer := rw_Write b (writer e)\<rparr>"] Cons.prems Write by simp
  next
    case (Panic v)
    then show ?thesis using Cons.prems by simp
  next
    case (StoreCall c)
    then show ?thesis
      using Cons.IH [of "e\<lparr>calls := calls e @ [c]\<rparr>"] Cons.prems by simp
  next
    case (Log l)
    then show ?thesis
      using Cons.IH [of "e\<lparr>logs := logs e @ [l]\<rparr>"] Cons.prems by simp
  qed
qed

lemma inner_env_facts:
  "\<not> wroteHeader (ResponseWriter (writer (inner_env new lg r)))"
  "agrees (writer (inner_env new lg r))"
  "carries ''X-Request-ID'' (correlation_id new r) (ResponseWriter (writer (inner_env new lg r)))"
  "body (ResponseWriter (writer (inner_env new lg r))) = []"
  "logs (inner_env new lg r) = lg"
  "calls (inner_env new lg r) = []"
  by (simp_all add: inner_env_def response_Header_Set_def cors_headers_def new_response_def
        agrees_def carries_def)

lemma recovered_completion:
  assumes "completion_records (logged sc) = []"
  shows "completion_records (logs (recovered rl (run sc e))) = completion_records (logs e)"
proof -
  obtain ls where ls: "logs (fst (run sc e)) = logs e @ ls" "set ls \<subseteq> set (logged sc)"
    using run_logs [of sc e] by blast
  have q: "completion_records ls = []"
    using assms ls(2) by (auto simp: completion_records_def filter_empty_conv)
  show ?thesis
  proof (cases "snd (run sc e)")
    case None
    then have "logs (recovered rl (run sc e)) = logs e @ ls"
      using ls by (simp add: recovered_def split_beta)
    with q show ?thesis
      by (simp add: completion_records_def)
  next
    case (Some v)
    then have "logs (recovered rl (run sc e)) =
        logs e @ ls @ [logger_Error rl ''panic recovered''
                         [(''error'', AStr v), (''stack'', AStr ''stack trace would go here'')]]"
      using ls by (simp add: recovered_def split_beta http_Error_logs)
    with q show ?thesis
      by (simp add: completion_records_def logger_Error_def)
  qed
qed

lemma recovered_agrees:
  assumes "orderly False sc" "\<not> wroteHeader (ResponseWriter (writer e))" "agrees (writer e)"
  shows "agrees (writer (recovered rl (run sc e)))"
proof -
  obtain e1 p where r: "run sc e = (e1, p)"
    by (cases "run sc e")
  from run_orderly [OF _ assms(3) r] assms(1,2)
  have o: "case p of None \<Rightarrow> agrees (writer e1)
           | Some v \<Rightarrow> \<not> wroteHeader (ResponseWriter (writer e1))"
    by simp
  show ?thesis
  proof (cases p)
    case None
    with o r show ?thesis by (simp add: recovered_def)
  next
    case (Some v)
    with o have "\<not> wroteHeader (ResponseWriter (writer (e1\<lparr>logs := l\<rparr>)))" for l
      by simp
    from http_Error_fresh(4) [OF this] Some r show ?thesis
      by (simp add: recovered_def)
  qed
qed

lemma finishRequest_status:
  "agrees rw \<Longrightarrow> status (finishRequest (ResponseWriter rw)) = statusCode rw"
  by (simp add: agrees_def finishRequest_def split: if_splits)

lemma msg_logger_Info: "msg (logger_Info rl m xs) = m"
  by (simp add: logger_Info_def)

lemma status_attr_completion:
  "status_attr (logger_Info rl m [(''status'', x), (''duration'', y), (''bytes'', z)]) = Some x"
  by (simp add: status_attr_def logger_Info_def)

text \<open>
  The users handlers call \<^verbatim>\<open>WriteHeader\<close> once, with 200, 400, 404 or 500, before they
  write, raise no panic, and log under the names ``failed to get user'', ``failed to list
  users'' and ``failed to encode response'' only.
\<close>

lemma msg_logger_Error: "msg (logger_Error rl m xs) = m"
  by (simp add: logger_Error_def)

lemma orderly_StoreCalls: "orderly st (map StoreCall cs @ rest) = orderly st rest"
  by (induction cs) simp_all

lemma orderly_respondWithJSON:
  "200 \<le> code \<Longrightarrow> code \<le> 999 \<Longrightarrow> orderly False (respondWithJSON L hl code payload)"
  by (simp add: respondWithJSON_def split: option.splits)

lemma logged_append: "logged (xs @ ys) = logged xs @ logged ys"
  by (induction xs rule: logged.induct) simp_all

lemma logged_StoreCalls: "logged (map StoreCall cs) = []"
  by (induction cs) simp_all

lemma completion_append:
  "completion_records (xs @ ys) = completion_records xs @ completion_records ys"
  by (simp add: completion_records_def)

lemma completion_Nil: "completion_records [] = []"
  by (simp add: completion_records_def)

lemma completion_Cons:
  "completion_records (x # xs) =
     (if msg x = ''request completed'' then x # completion_records xs else completion_records xs)"
  by (simp add: completion_records_def)

lemma completion_respondWithJSON:
  "completion_records (logged (respondWithJSON L hl code payload)) = []"
  by (simp add: respondWithJSON_def completion_records_def msg_logger_Error split: option.splits)

lemma orderly_HandleGetUser: "orderly False (HandleGetUser L q hl r)"
  by (simp add: HandleGetUser_def Let_def respondWithError_def orderly_StoreCalls
        orderly_respondWithJSON split: option.splits prod.splits sum.splits)

lemma orderly_HandleListUsers: "orderly False (HandleListUsers L q hl r)"
  by (simp add: HandleListUsers_def Let_def respondWithError_def orderly_StoreCalls
        orderly_respondWithJSON split: option.splits prod.splits sum.splits)

lemma completion_HandleGetUser: "completion_records (logged (HandleGetUser L q hl r)) = []"
  by (simp add: HandleGetUser_def Let_def respondWithError_def logged_append logged_StoreCalls
        completion_append completion_respondWithJSON completion_Nil completion_Cons
        msg_logger_Error
      split: option.splits prod.splits sum.splits)

lemma completion_HandleListUsers: "completion_records (logged (HandleListUsers L q hl r)) = []"
  by (simp add: HandleListUsers_def Let_def respondWithError_def logged_append logged_StoreCalls
        completion_append completion_respondWithJSON completion_Nil completion_Cons
        msg_logger_Error
      split: option.splits prod.splits sum.splits)

text \<open>
  C1 as the code has it. A pre-flight request is answered 204 by the origin-policy stage and
  adds nothing to the log. For any other request the last record of the log is the completion
  record of the logging stage, and it is the only record of that name the request adds when
  the handler logs none of that name itself. When the handler is orderly (each
  \<^verbatim>\<open>WriteHeader\<close> it calls comes before its response has started and carries a final
  status, 101 or 200..999, and it does not panic once its response has started), the status
  in that record is the status of the response; this covers a handler that panics before it
  has written anything, where the status is the one the panic-containment stage writes. Both
  users handlers are orderly and log no record of that name.
\<close>

theorem completion_record_status:
  "(Method r = ''OPTIONS'' \<longrightarrow>
      logs (fst (serve s elapsed new h lg r)) = lg \<and>
      status (writer (fst (serve s elapsed new h lg r))) = 204)
   \<and> (Method r \<noteq> ''OPTIONS'' \<longrightarrow>
      msg (last (logs (fst (serve s elapsed new h lg r)))) = ''request completed'' \<and>
      (completion_records (logged (h (inner_request s new r))) = [] \<longrightarrow>
         completion_records (logs (fst (serve s elapsed new h lg r))) =
           completion_records lg @ [last (logs (fst (serve s elapsed new h lg r)))]) \<and>
      (orderly False (h (inner_request s new r)) \<longrightarrow>
         status_attr (last (logs (fst (serve s elapsed new h lg r)))) =
           Some (AInt (status (writer (fst (serve s elapsed new h lg r)))))))
   \<and> orderly False (HandleGetUser L q hl r') \<and>
     completion_records (logged (HandleGetUser L q hl r')) = []
   \<and> orderly False (HandleListUsers L q hl r') \<and>
     completion_records (logged (HandleListUsers L q hl r')) = []"
proof -
  let ?sc = "h (inner_request s new r)"
  let ?rl = "requestLogger_of s new r"
  let ?e2 = "recovered ?rl (run ?sc (inner_env new lg r))"
  have o: "logs (fst (serve s elapsed new h lg r)) = lg \<and>
           status (writer (fst (serve s elapsed new h lg r))) = 204"
    if "Method r = ''OPTIONS''"
    using that by (simp add: serve_options)
  have c: "completion_records (logs ?e2) = completion_records lg"
    if "completion_records (logged ?sc) = []"
    using recovered_completion [OF that, of ?rl "inner_env new lg r"]
    by (simp add: inner_env_facts)
  have a: "status (finishRequest (ResponseWriter (writer ?e2))) = statusCode (writer ?e2)"
    if "orderly False ?sc"
    using recovered_agrees [where e = "inner_env new lg r" and rl = ?rl, OF that inner_env_facts(1,2)]
    by (rule finishRequest_status)
  have n: "msg (last (logs (fst (serve s elapsed new h lg r)))) = ''request completed'' \<and>
      (completion_records (logged ?sc) = [] \<longrightarrow>
         completion_records (logs (fst (serve s elapsed new h lg r))) =
           completion_records lg @ [last (logs (fst (serve s elapsed new h lg r)))]) \<and>
      (orderly False ?sc \<longrightarrow>
         status_attr (last (logs (fst (serve s elapsed new h lg r)))) =
           Some (AInt (status (writer (fst (serve s elapsed new h lg r))))))"
    if "Method r \<noteq> ''OPTIONS''"
    using c a
    by (simp add: serve_non_options [OF that] Let_def status_attr_completion
          completion_records_def msg_logger_Info)
  show ?thesis
    using o n
    by (simp add: orderly_HandleGetUser orderly_HandleListUsers completion_HandleGetUser
          completion_HandleListUsers)
qed

text \<open>
  Where the record and the response part. A pre-flight request leaves no completion record.
  A handler that panics after it has started its response is recorded with 500 while the
  client has received 200, and an interim 103 is recorded for a response that goes out with
  200: \<^verbatim>\<open>responseWriter.WriteHeader\<close> stores its argument also when the writer it wraps
  does not take it as the status of the response.
\<close>

theorem completion_record_counterexample:
  "completion_records (logs (fst (serve test_server 0 uuid_Nil healthy []
       (options_request Map.empty)))) = []
   \<and> status (writer (fst (serve test_server 0 uuid_Nil healthy []
       (options_request Map.empty)))) = 204
   \<and> status_attr (last (logs (fst (serve test_server 0 uuid_Nil late_panic []
       (get_request ''/health'' Map.empty Map.empty Map.empty))))) = Some (AInt 500)
   \<and> status (writer (fst (serve test_server 0 uuid_Nil late_panic []
       (get_request ''/health'' Map.empty Map.empty Map.empty)))) = 200
   \<and> status_attr (last (logs (fst (serve test_server 0 uuid_Nil early_hints []
       (get_request ''/health'' Map.empty Map.empty Map.empty))))) = Some (AInt 103)
   \<and> status (writer (fst (serve test_server 0 uuid_Nil early_hints []
       (get_request ''/health'' Map.empty Map.empty Map.empty)))) = 200"
proof -
  let ?r = "get_request ''/health'' Map.empty Map.empty Map.empty"
  have m: "Method ?r \<noteq> ''OPTIONS''"
    by (simp add: get_request_def)
  have p: "status_attr (last (logs (fst (serve test_server 0 uuid_Nil late_panic [] ?r)))) = Some (AInt 500)
      \<and> status (writer (fst (serve test_server 0 uuid_Nil late_panic [] ?r))) = 200"
    by (simp add: serve_non_options [OF m] Let_def status_attr_completion late_panic_def
          recovered_def http_Error_def inner_env_def rw_Write_def response_Write_def
          rw_WriteHeader_def response_WriteHeader_def rw_Header_Set_def response_Header_Set_def
          cors_headers_def new_response_def finishRequest_def bodyAllowedForStatus_def)
  have e: "status_attr (last (logs (fst (serve test_server 0 uuid_Nil early_hints [] ?r)))) = Some (AInt 103)
      \<and> status (writer (fst (serve test_server 0 uuid_Nil early_hints [] ?r))) = 200"
    by (simp add: serve_non_options [OF m] Let_def status_attr_completion early_hints_def
          recovered_def inner_env_def rw_Write_def response_Write_def
          rw_WriteHeader_def response_WriteHeader_def rw_Header_Set_def response_Header_Set_def
          cors_headers_def new_response_def finishRequest_def bodyAllowedForStatus_def)
  show ?thesis
    using p e by (simp add: serve_options options_request_def completion_records_def)
qed

theorem completion_record_status_witness:
  "Method (options_request Map.empty) = ''OPTIONS''
   \<and> logs (fst (serve test_server 0 uuid_Nil flaky [] (options_request Map.empty))) = []
   \<and> Method (get_request ''/boom'' Map.empty Map.empty Map.empty) \<noteq> ''OPTIONS''
   \<and> completion_records (logged (flaky (inner_request test_server uuid_Nil
         (get_request ''/boom'' Map.empty Map.empty Map.empty)))) = []
   \<and> orderly False (flaky (inner_request test_server uuid_Nil
         (get_request ''/boom'' Map.empty Map.empty Map.empty)))
   \<and> completion_records (logs (fst (serve test_server 0 uuid_Nil flaky []
         (get_request ''/boom'' Map.empty Map.empty Map.empty)))) =
       [last (logs (fst (serve test_server 0 uuid_Nil flaky []
         (get_request ''/boom'' Map.empty Map.empty Map.empty))))]
   \<and> status (writer (fst (serve test_server 0 uuid_Nil flaky []
         (get_request ''/boom'' Map.empty Map.empty Map.empty)))) = 500
   \<and> status_attr (last (logs (fst (serve test_server 0 uuid_Nil flaky []
         (get_request ''/boom'' Map.empty Map.empty Map.empty))))) = Some (AInt 500)"
proof -
  let ?r = "get_request ''/boom'' Map.empty Map.empty Map.empty"
  have mo: "Method (options_request Map.empty) = ''OPTIONS''"
    by (simp add: options_request_def)
  have m: "Method ?r \<noteq> ''OPTIONS''"
    by (simp add: get_request_def)
  have f: "flaky (inner_request test_server uuid_Nil ?r) = [Panic ''boom'']"
    by (simp add: flaky_def inner_request_def get_request_def)
  have q: "completion_records (logged (flaky (inner_request test_server uuid_Nil ?r))) = []"
    by (simp add: f completion_records_def)
  have ob: "orderly False (flaky (inner_request test_server uuid_Nil ?r))"
    by (simp add: f)
  have cl: "completion_records [] = []"
    by (simp add: completion_records_def)
  have w: "status (writer (fst (serve test_server 0 uuid_Nil flaky [] ?r))) = 500"
    by (simp add: serve_non_options [OF m] Let_def f recovered_def http_Error_def inner_env_def
          rw_Write_def response_Write_def rw_WriteHeader_def response_WriteHeader_def
          rw_Header_Set_def response_Header_Set_def cors_headers_def new_response_def
          finishRequest_def bodyAllowedForStatus_def)
  show ?thesis
    using completion_record_status [where r = ?r and h = flaky and s = test_server
        and new = uuid_Nil and elapsed = 0 and lg = "[]"]
      completion_record_status [where r = "options_request Map.empty" and h = flaky
        and s = test_server and new = uuid_Nil and elapsed = 0 and lg = "[]"]
      mo m q ob cl w
    by simp
qed

lemma recovered_carries:
  assumes "k \<notin> set (header_keys sc)" "k \<noteq> ''Content-Type''" "k \<noteq> ''X-Content-Type-Options''"
    and "carries k v (ResponseWriter (writer e))"
  shows "carries k v (ResponseWriter (writer (recovered rl (run sc e))))"
proof -
  note c = run_carries [OF assms(1,4)]
  show ?thesis
  proof (cases "snd (run sc e)")
    case None
    with c show ?thesis by (simp add: recovered_def split_beta)
  next
    case (Some x)
    have "carries k v (ResponseWriter (writer (fst (run sc e)\<lparr>logs := l\<rparr>)))" for l
      using c by simp
    from http_Error_carries [OF assms(2,3) this] Some show ?thesis
      by (simp add: recovered_def split_beta)
  qed
qed

lemma finishRequest_carries:
  "carries k v w \<Longrightarrow> sentHeader (finishRequest w) k = Some v"
  by (simp add: carries_def finishRequest_def)

lemma serve_request_id_header:
  assumes "Method r \<noteq> ''OPTIONS''"
    and "''X-Request-ID'' \<notin> set (header_keys (h (inner_request s new r)))"
  shows "sentHeader (writer (fst (serve s elapsed new h lg r))) ''X-Request-ID'' =
           Some (correlation_id new r)"
proof -
  have "carries ''X-Request-ID'' (correlation_id new r)
          (ResponseWriter (writer (recovered (requestLogger_of s new r)
             (run (h (inner_request s new r)) (inner_env new lg r)))))"
    using assms(2) inner_env_facts(3) by (intro recovered_carries) simp_all
  then show ?thesis
    by (simp add: serve_non_options [OF assms(1)] Let_def finishRequest_carries)
qed

lemma uuid_String_nonempty: "uuid_String u \<noteq> []"
  by (simp add: uuid_String_def)

lemma length_encodeHex: "length (encodeHex bs) = 2 * length bs"
  by (induction bs) (simp_all add: encodeHex_def hex_byte_def)

lemma length_uuid_String: "length u = 16 \<Longrightarrow> length (uuid_String u) = 36"
  by (simp add: uuid_String_def length_encodeHex)

text \<open>
  C6 as the code has it. For a request other than a pre-flight one, handled by a handler that
  does not set the \<^verbatim>\<open>X-Request-ID\<close> header itself: a non-empty identifier in the request
  header is the value of the response header, unchanged; without one the response header is
  the textual form of the freshly drawn identifier, which is not empty.
\<close>

theorem request_id_round_trip:
  assumes "Method r \<noteq> ''OPTIONS''"
    and "''X-Request-ID'' \<notin> set (header_keys (h (inner_request s new r)))"
  shows "(Get (Header r) ''X-Request-ID'' \<noteq> [] \<longrightarrow>
            sentHeader (writer (fst (serve s elapsed new h lg r))) ''X-Request-ID'' =
              Some (Get (Header r) ''X-Request-ID''))
       \<and> (Get (Header r) ''X-Request-ID'' = [] \<longrightarrow>
            sentHeader (writer (fst (serve s elapsed new h lg r))) ''X-Request-ID'' =
              Some (uuid_String new))
       \<and> uuid_String new \<noteq> []"
  using assms
  by (simp add: serve_request_id_header correlation_id_def uuid_String_nonempty)

theorem request_id_options_counterexample:
  "Get (Header (options_request [''X-Request-ID'' \<mapsto> ''abc''])) ''X-Request-ID'' = ''abc''
   \<and> sentHeader (writer (fst (serve test_server 0 uuid_Nil healthy []
        (options_request [''X-Request-ID'' \<mapsto> ''abc''])))) ''X-Request-ID'' = None"
  by (simp add: serve_options options_request_def Get_def cors_headers_def
        response_Header_Set_def new_response_def)

theorem request_id_round_trip_witness:
  "Method (get_request ''/health'' [''X-Request-ID'' \<mapsto> ''abc''] Map.empty Map.empty) \<noteq> ''OPTIONS''
   \<and> ''X-Request-ID'' \<notin> set (header_keys (healthy (inner_request test_server uuid_Nil
         (get_request ''/health'' [''X-Request-ID'' \<mapsto> ''abc''] Map.empty Map.empty))))
   \<and> sentHeader (writer (fst (serve test_server 0 uuid_Nil healthy []
         (get_request ''/health'' [''X-Request-ID'' \<mapsto> ''abc''] Map.empty Map.empty))))
         ''X-Request-ID'' = Some ''abc''
   \<and> sentHeader (writer (fst (serve test_server 0 uuid_Nil healthy []
         (get_request ''/health'' Map.empty Map.empty Map.empty))))
         ''X-Request-ID'' = Some ''00000000-0000-0000-0000-000000000000''"
proof -
  let ?r = "get_request ''/health'' [''X-Request-ID'' \<mapsto> ''abc''] Map.empty Map.empty"
  let ?q = "get_request ''/health'' Map.empty Map.empty Map.empty"
  have m: "Method ?r \<noteq> ''OPTIONS''" "Method ?q \<noteq> ''OPTIONS''"
    by (simp_all add: get_request_def)
  have k: "''X-Request-ID'' \<notin> set (header_keys (healthy x))" for x
    by (simp add: healthy_def)
  have g: "Get (Header ?r) ''X-Request-ID'' = ''abc''" "Get (Header ?q) ''X-Request-ID'' = []"
    by (simp_all add: get_request_def Get_def)
  have u: "uuid_String uuid_Nil = ''00000000-0000-0000-0000-000000000000''"
    by (simp add: uuid_String_def uuid_Nil_def encodeHex_def hex_byte_def hexdigit_def
        numeral_eq_Suc)
  show ?thesis
    using request_id_round_trip [where r = ?r and h = healthy and s = test_server
        and new = uuid_Nil and elapsed = 0 and lg = "[]", OF m(1) k]
      request_id_round_trip [where r = ?q and h = healthy and s = test_server
        and new = uuid_Nil and elapsed = 0 and lg = "[]", OF m(2) k]
      m k g u
    by simp
qed

lemma header_keys_append: "header_keys (xs @ ys) = header_keys xs @ header_keys ys"
  by (induction xs rule: header_keys.induct) simp_all

lemma header_keys_StoreCalls: "header_keys (map StoreCall cs) = []"
  by (induction cs) simp_all

lemma header_keys_respondWithJSON: "header_keys (respondWithJSON L hl code payload) = [''Content-Type'']"
  by (simp add: respondWithJSON_def split: option.splits)

text \<open>The handlers of the users package set the content type and no other header.\<close>

lemma header_keys_HandleGetUser: "set (header_keys (HandleGetUser L q hl r)) \<subseteq> {''Content-Type''}"
  by (auto simp: HandleGetUser_def Let_def respondWithError_def header_keys_append
        header_keys_StoreCalls header_keys_respondWithJSON split: option.splits prod.splits sum.splits)

lemma header_keys_HandleListUsers: "set (header_keys (HandleListUsers L q hl r)) \<subseteq> {''Content-Type''}"
  by (auto simp: HandleListUsers_def Let_def respondWithError_def header_keys_append
        header_keys_StoreCalls header_keys_respondWithJSON split: option.splits prod.splits sum.splits)

lemma request_id_attr:
  "(''request_id'', AStr (correlation_id new r)) \<in> set (bound (requestLogger_of s new r))"
  by (auto simp: requestLogger_of_def logger_With_def Let_def split: option.splits)

text \<open>
  C7 as the code has it. A pre-flight request gets 204 with the cross-origin headers, no body
  and no \<^verbatim>\<open>X-Request-ID\<close> header; the inner stages are not invoked, so nothing is logged
  and the store is not called. Every other request, handled by a handler that does not set
  the header itself, gets a response whose \<^verbatim>\<open>X-Request-ID\<close> header is the correlation
  identifier: the value put into the context of the handler and bound as \<open>request_id\<close> in
  the completion record.
\<close>

theorem response_carries_request_id:
  "(Method r = ''OPTIONS'' \<longrightarrow>
      status (writer (fst (serve s elapsed new h lg r))) = 204 \<and>
      body (writer (fst (serve s elapsed new h lg r))) = [] \<and>
      sentHeader (writer (fst (serve s elapsed new h lg r))) ''Access-Control-Allow-Origin'' = Some ''*'' \<and>
      sentHeader (writer (fst (serve s elapsed new h lg r))) ''X-Request-ID'' = None \<and>
      logs (fst (serve s elapsed new h lg r)) = lg \<and>
      calls (fst (serve s elapsed new h lg r)) = [])
   \<and> (Method r \<noteq> ''OPTIONS'' \<longrightarrow>
      ''X-Request-ID'' \<notin> set (header_keys (h (inner_request s new r))) \<longrightarrow>
        sentHeader (writer (fst (serve s elapsed new h lg r))) ''X-Request-ID'' =
          Some (correlation_id new r) \<and>
        ctx_request_id (Context (inner_request s new r)) = Some (correlation_id new r) \<and>
        (''request_id'', AStr (correlation_id new r))
          \<in> set (attrs (last (logs (fst (serve s elapsed new h lg r))))))"
proof (intro conjI impI)
  assume o: "Method r = ''OPTIONS''"
  note sv = serve_options [OF o, of s elapsed new h lg]
  show "status (writer (fst (serve s elapsed new h lg r))) = 204"
    by (simp add: sv)
  show "body (writer (fst (serve s elapsed new h lg r))) = []"
    by (simp add: sv cors_headers_def response_Header_Set_def new_response_def)
  show "sentHeader (writer (fst (serve s elapsed new h lg r))) ''Access-Control-Allow-Origin'' = Some ''*''"
    by (simp add: sv cors_headers_def response_Header_Set_def new_response_def)
  show "sentHeader (writer (fst (serve s elapsed new h lg r))) ''X-Request-ID'' = None"
    by (simp add: sv cors_headers_def response_Header_Set_def new_response_def)
  show "logs (fst (serve s elapsed new h lg r)) = lg"
    by (simp add: sv)
  show "calls (fst (serve s elapsed new h lg r)) = []"
    by (simp add: sv)
next
  assume n: "Method r \<noteq> ''OPTIONS''"
    and k: "''X-Request-ID'' \<notin> set (header_keys (h (inner_request s new r)))"
  show "sentHeader (writer (fst (serve s elapsed new h lg r))) ''X-Request-ID'' =
          Some (correlation_id new r)"
    using n k by (simp add: serve_request_id_header)
  show "ctx_request_id (Context (inner_request s new r)) = Some (correlation_id new r)"
    by (simp add: inner_request_def)
  show "(''request_id'', AStr (correlation_id new r))
          \<in> set (attrs (last (logs (fst (serve s elapsed new h lg r)))))"
    using request_id_attr [of new r s]
    by (simp add: serve_non_options [OF n] Let_def logger_Info_def)
qed

theorem preflight_without_request_id_counterexample:
  "status (writer (fst (serve test_server 0 uuid_Nil healthy [] (options_request Map.empty)))) = 204
   \<and> sentHeader (writer (fst (serve test_server 0 uuid_Nil healthy [] (options_request Map.empty))))
       ''X-Request-ID'' = None"
  by (simp add: serve_options options_request_def cors_headers_def
        response_Header_Set_def new_response_def)

theorem response_carries_request_id_witness:
  "Method (options_request Map.empty) = ''OPTIONS''
   \<and> status (writer (fst (serve test_server 0 uuid_Nil healthy [] (options_request Map.empty)))) = 204
   \<and> Method (get_request ''/health'' [''X-Request-ID'' \<mapsto> ''abc''] Map.empty Map.empty) \<noteq> ''OPTIONS''
   \<and> ''X-Request-ID'' \<notin> set (header_keys (healthy (inner_request test_server uuid_Nil
         (get_request ''/health'' [''X-Request-ID'' \<mapsto> ''abc''] Map.empty Map.empty))))
   \<and> sentHeader (writer (fst (serve test_server 0 uuid_Nil healthy []
         (get_request ''/health'' [''X-Request-ID'' \<mapsto> ''abc''] Map.empty Map.empty))))
         ''X-Request-ID'' = Some ''abc''"
proof -
  let ?r = "get_request ''/health'' [''X-Request-ID'' \<mapsto> ''abc''] Map.empty Map.empty"
  have m: "Method ?r \<noteq> ''OPTIONS''" "Method (options_request Map.empty) = ''OPTIONS''"
    by (simp_all add: get_request_def options_request_def)
  have k: "''X-Request-ID'' \<notin> set (header_keys (healthy x))" for x
    by (simp add: healthy_def)
  have c: "correlation_id uuid_Nil ?r = ''abc''"
    by (simp add: correlation_id_def get_request_def Get_def)
  show ?thesis
    using response_carries_request_id [where r = ?r and h = healthy and s = test_server
        and new = uuid_Nil and elapsed = 0 and lg = "[]"]
      response_carries_request_id [where r = "options_request Map.empty" and h = healthy
        and s = test_server and new = uuid_Nil and elapsed = 0 and lg = "[]"]
      m k c
    by simp
qed

lemma recovered_panic:
  assumes "run sc e = (e1, Some v)"
  shows "logs (recovered rl (run sc e)) =
           logs e1 @ [logger_Error rl ''panic recovered''
                        [(''error'', AStr v), (''stack'', AStr ''stack trace would go here'')]]"
    and "\<not> wroteHeader (ResponseWriter (writer e1)) \<Longrightarrow>
           status (ResponseWriter (writer (recovered rl (run sc e)))) = 500"
    and "\<not> wroteHeader (ResponseWriter (writer e1)) \<Longrightarrow>
           wroteHeader (ResponseWriter (writer (recovered rl (run sc e))))"
    and "\<not> wroteHeader (ResponseWriter (writer e1)) \<Longrightarrow>
           body (ResponseWriter (writer (recovered rl (run sc e)))) =
             body (ResponseWriter (writer e1)) @ ''Internal Server Error'' @ [CHR 0x0A]"
  using assms
  by (simp_all add: recovered_def http_Error_logs http_Error_fresh)

text \<open>
  C5. No panic leaves the chain, whatever the handler does, so an instance answers every
  request it is given, each with the response it would have got on its own. When the handler
  of a request panics, the log gets a record at error level that carries the value
  recovered, and if the response had not started, the client gets 500 with the fixed text
  ``Internal Server Error''.
\<close>

theorem panic_contained:
  "snd (serve s elapsed new h lg r) = None
   \<and> length (fst (serve_all s h lg rs)) = length rs
   \<and> fst (serve_all s h lg rs) =
       map (\<lambda>(elapsed, new, r). writer (fst (serve s elapsed new h [] r))) rs
   \<and> (Method r \<noteq> ''OPTIONS'' \<longrightarrow>
       run (h (inner_request s new r)) (inner_env new lg r) = (eh, Some v) \<longrightarrow>
         logger_Error (requestLogger_of s new r) ''panic recovered''
             [(''error'', AStr v), (''stack'', AStr ''stack trace would go here'')]
           \<in> set (logs (fst (serve s elapsed new h lg r))) \<and>
         lvl (logger_Error (requestLogger_of s new r) ''panic recovered''
             [(''error'', AStr v), (''stack'', AStr ''stack trace would go here'')]) = LevelError \<and>
         (\<not> wroteHeader (ResponseWriter (writer eh)) \<longrightarrow>
            status (writer (fst (serve s elapsed new h lg r))) = 500 \<and>
            body (writer (fst (serve s elapsed new h lg r))) =
              ''Internal Server Error'' @ [CHR 0x0A]))"
proof (intro conjI impI)
  show "snd (serve s elapsed new h lg r) = None"
    by (rule serve_returns)
  show "fst (serve_all s h lg rs) =
       map (\<lambda>(elapsed, new, r). writer (fst (serve s elapsed new h [] r))) rs"
    by (rule serve_all_responses)
  then show "length (fst (serve_all s h lg rs)) = length rs"
    by simp
next
  assume n: "Method r \<noteq> ''OPTIONS''"
    and p: "run (h (inner_request s new r)) (inner_env new lg r) = (eh, Some v)"
  note rp = recovered_panic [OF p, of "requestLogger_of s new r"]
  show "logger_Error (requestLogger_of s new r) ''panic recovered''
             [(''error'', AStr v), (''stack'', AStr ''stack trace would go here'')]
           \<in> set (logs (fst (serve s elapsed new h lg r)))"
    by (simp add: serve_non_options [OF n] Let_def rp(1))
  show "lvl (logger_Error (requestLogger_of s new r) ''panic recovered''
             [(''error'', AStr v), (''stack'', AStr ''stack trace would go here'')]) = LevelError"
    by (simp add: logger_Error_def)
  assume w: "\<not> wroteHeader (ResponseWriter (writer eh))"
  have b: "body (ResponseWriter (writer eh)) = []"
    using run_body_unstarted [of "inner_env new lg r" "h (inner_request s new r)"] w p
    by (simp add: inner_env_facts)
  show "status (writer (fst (serve s elapsed new h lg r))) = 500"
    using rp(2,3) [OF w] by (simp add: serve_non_options [OF n] Let_def finishRequest_def)
  show "body (writer (fst (serve s elapsed new h lg r))) = ''Internal Server Error'' @ [CHR 0x0A]"
    using rp(3,4) [OF w] b by (simp add: serve_non_options [OF n] Let_def finishRequest_def)
qed

lemma run_healthy:
  "\<not> wroteHeader (ResponseWriter (writer e)) \<Longrightarrow>
   snd (run (healthy r) e) = None \<and>
   status (ResponseWriter (writer (fst (run (healthy r) e)))) = 200 \<and>
   wroteHeader (ResponseWriter (writer (fst (run (healthy r) e))))"
  by (simp add: healthy_def rw_Header_Set_def response_Header_Set_def rw_WriteHeader_def
        response_WriteHeader_def rw_Write_def response_Write_def Let_def)

theorem panic_contained_witness:
  "Method (get_request ''/boom'' Map.empty Map.empty Map.empty) \<noteq> ''OPTIONS''
   \<and> run (flaky (inner_request test_server uuid_Nil (get_request ''/boom'' Map.empty Map.empty Map.empty)))
        (inner_env uuid_Nil [] (get_request ''/boom'' Map.empty Map.empty Map.empty))
      = (inner_env uuid_Nil [] (get_request ''/boom'' Map.empty Map.empty Map.empty), Some ''boom'')
   \<and> \<not> wroteHeader (ResponseWriter (writer
          (inner_env uuid_Nil [] (get_request ''/boom'' Map.empty Map.empty Map.empty))))
   \<and> status (writer (fst (serve test_server 0 uuid_Nil flaky []
         (get_request ''/boom'' Map.empty Map.empty Map.empty)))) = 500
   \<and> map status (fst (serve_all test_server flaky []
         [(0, uuid_Nil, get_request ''/boom'' Map.empty Map.empty Map.empty),
          (0, uuid_Nil, get_request ''/health'' Map.empty Map.empty Map.empty)])) = [500, 200]"
proof -
  let ?r = "get_request ''/boom'' Map.empty Map.empty Map.empty"
  let ?q = "get_request ''/health'' Map.empty Map.empty Map.empty"
  have m: "Method ?r \<noteq> ''OPTIONS''" "Method ?q \<noteq> ''OPTIONS''"
    by (simp_all add: get_request_def)
  have f: "flaky (inner_request test_server uuid_Nil ?r) = [Panic ''boom'']"
    by (simp add: flaky_def inner_request_def get_request_def)
  have g: "flaky (inner_request test_server uuid_Nil ?q) = healthy (inner_request test_server uuid_Nil ?q)"
    by (simp add: flaky_def inner_request_def get_request_def)
  have p: "run (flaky (inner_request test_server uuid_Nil ?r)) (inner_env uuid_Nil [] ?r)
             = (inner_env uuid_Nil [] ?r, Some ''boom'')"
    by (simp add: f)
  have w: "\<not> wroteHeader (ResponseWriter (writer (inner_env uuid_Nil [] ?r)))"
    by (rule inner_env_facts)
  have h: "status (writer (fst (serve test_server 0 uuid_Nil flaky [] ?q))) = 200"
    using run_healthy [where e = "inner_env uuid_Nil [] ?q"
        and r = "inner_request test_server uuid_Nil ?q", OF inner_env_facts(1)]
    by (simp add: serve_non_options [OF m(2)] Let_def g recovered_def split_beta finishRequest_def)
  show ?thesis
    using panic_contained [where r = ?r and h = flaky and s = test_server and new = uuid_Nil
        and elapsed = 0 and lg = "[]" and eh = "inner_env uuid_Nil [] ?r" and v = "''boom''"
        and rs = "[(0, uuid_Nil, ?r), (0, uuid_Nil, ?q)]"]
      m p w h
    by simp
qed

section \<open>Properties of the logger in the context\<close>

text \<open>
  C10 as the code has it. \<^verbatim>\<open>FromContext\<close> returns a logger that is not nil unless a nil
  pointer was stored in the context: the logger stored with \<^verbatim>\<open>WithContext\<close> when there is
  one, the process-wide default when nothing was stored. So the panic-containment stage logs
  the recovered value with the default logger for a request whose context never passed
  through the logging stage, and in the chain it finds the logger of the logging stage.
\<close>

theorem FromContext_logger:
  "(ctx_logger c \<noteq> Some None \<longrightarrow> FromContext d c \<noteq> None)
   \<and> FromContext d (WithContext c (Some l)) = Some l
   \<and> (ctx_logger c = None \<longrightarrow> FromContext d c = Some d)
   \<and> FromContext (slog_Default s) (Context (inner_request s new r')) = Some (requestLogger_of s new r')
   \<and> (ctx_logger (Context r) = None \<longrightarrow> run (h r) e = (eh, Some v) \<longrightarrow>
        snd (recoveryMiddleware s (ServeHTTP h) e r) = None \<and>
        logs (fst (recoveryMiddleware s (ServeHTTP h) e r)) =
          logs eh @ [logger_Error (slog_Default s) ''panic recovered''
                       [(''error'', AStr v), (''stack'', AStr ''stack trace would go here'')]])"
proof (intro conjI impI)
  show "FromContext d c \<noteq> None" if "ctx_logger c \<noteq> Some None"
    using that by (auto simp: FromContext_def split: option.splits)
  show "FromContext d (WithContext c (Some l)) = Some l"
    by (simp add: FromContext_def WithContext_def)
  show "FromContext d c = Some d" if "ctx_logger c = None"
    using that by (simp add: FromContext_def)
  show "FromContext (slog_Default s) (Context (inner_request s new r')) = Some (requestLogger_of s new r')"
    by (simp add: FromContext_def inner_request_def)
next
  assume a: "ctx_logger (Context r) = None" "run (h r) e = (eh, Some v)"
  have f: "FromContext (slog_Default s) (Context r) = Some (slog_Default s)"
    using a(1) by (simp add: FromContext_def)
  show "snd (recoveryMiddleware s (ServeHTTP h) e r) = None"
    by (simp add: recovery_cases f)
  show "logs (fst (recoveryMiddleware s (ServeHTTP h) e r)) =
          logs eh @ [logger_Error (slog_Default s) ''panic recovered''
                       [(''error'', AStr v), (''stack'', AStr ''stack trace would go here'')]]"
    by (simp add: recovery_cases f recovered_panic(1) [OF a(2)])
qed

theorem FromContext_nil_counterexample:
  "FromContext base_logger (WithContext Background None) = None"
  by (simp add: FromContext_def WithContext_def)

theorem FromContext_logger_witness:
  "ctx_logger Background \<noteq> Some None
   \<and> FromContext base_logger Background = Some base_logger
   \<and> ctx_logger (Context (get_request ''/boom'' Map.empty Map.empty Map.empty)) = None
   \<and> run (flaky (get_request ''/boom'' Map.empty Map.empty Map.empty))
        (inner_env uuid_Nil [] (get_request ''/boom'' Map.empty Map.empty Map.empty))
      = (inner_env uuid_Nil [] (get_request ''/boom'' Map.empty Map.empty Map.empty), Some ''boom'')
   \<and> logs (fst (recoveryMiddleware test_server (ServeHTTP flaky)
        (inner_env uuid_Nil [] (get_request ''/boom'' Map.empty Map.empty Map.empty))
        (get_request ''/boom'' Map.empty Map.empty Map.empty))) =
       [logger_Error base_logger ''panic recovered''
          [(''error'', AStr ''boom''), (''stack'', AStr ''stack trace would go here'')]]"
proof -
  let ?r = "get_request ''/boom'' Map.empty Map.empty Map.empty"
  have b: "ctx_logger Background \<noteq> Some None" "ctx_logger Background = None"
    by (simp_all add: Background_def)
  have c: "ctx_logger (Context ?r) = None"
    by (simp add: get_request_def Background_def)
  have p: "run (flaky ?r) (inner_env uuid_Nil [] ?r) = (inner_env uuid_Nil [] ?r, Some ''boom'')"
    by (simp add: flaky_def get_request_def)
  have d: "slog_Default test_server = base_logger"
    by (simp add: test_server_def)
  show ?thesis
    using FromContext_logger [where c = Background and d = base_logger and r = ?r and h = flaky
        and e = "inner_env uuid_Nil [] ?r" and eh = "inner_env uuid_Nil [] ?r" and v = "''boom''"
        and s = test_server]
      b c p d
    by (simp add: inner_env_facts)
qed

section \<open>Properties of the users service\<close>

lemma store_calls_append: "store_calls (xs @ ys) = store_calls xs @ store_calls ys"
  by (induction xs rule: store_calls.induct) simp_all

lemma store_calls_map: "store_calls (map StoreCall cs) = cs"
  by (induction cs) simp_all

lemma store_calls_respondWithJSON: "store_calls (respondWithJSON L hl code payload) = []"
  by (simp add: respondWithJSON_def split: option.splits)

lemma store_calls_respondWithError: "store_calls (respondWithError L hl code m) = []"
  by (simp add: respondWithError_def store_calls_respondWithJSON)

lemma Limit_cases:
  "Limit (ListUsers_params limit offset) =
     (if limit \<le> 0 then 20 else if limit > 100 then 100 else word_of_int limit)"
  by (simp add: ListUsers_params_def Let_def)

lemma Offset_cases:
  "Offset (ListUsers_params limit offset) = (if offset < 0 then 0 else word_of_int offset)"
  by (simp add: ListUsers_params_def Let_def)

lemma sint_int32: "- (2 ^ 31) \<le> l \<Longrightarrow> l < 2 ^ 31 \<Longrightarrow> sint (word_of_int l :: 32 word) = l"
  by (simp add: sint_sbintrunc' signed_take_bit_int_eq_self)

lemma Limit_bounds:
  "0 < sint (Limit (ListUsers_params limit offset)) \<and>
   sint (Limit (ListUsers_params limit offset)) \<le> 100"
  by (simp add: Limit_cases sint_int32)

lemma fst_Service_ListUsers:
  "fst (Service_ListUsers q limit offset) = [CallListUsers (ListUsers_params limit offset)]"
  by (simp add: Service_ListUsers_def Let_def split: sum.splits)

lemma store_calls_HandleListUsers:
  "parse_param (Get (Query r) ''limit'') 20 = Some limit \<Longrightarrow>
   parse_param (Get (Query r) ''offset'') 0 = Some offset \<Longrightarrow>
   store_calls (HandleListUsers L q hl r) = [CallListUsers (ListUsers_params limit offset)]"
  using fst_Service_ListUsers [of q limit offset]
  by (auto simp: HandleListUsers_def Let_def store_calls_append store_calls_map
        store_calls_respondWithError store_calls_respondWithJSON split: prod.splits sum.splits)

text \<open>
  Every call of the list operation makes exactly one call on the store, with the parameters
  \<open>ListUsers_params\<close> computes: a requested limit above 100 is applied as 100, a limit of
  zero or less as 20, a negative offset as 0, and the applied limit is always in 1..100. The
  handler passes what it parsed on unchanged, and an absent limit reaches the store as 20.
\<close>

lemma ListUsers_clamp_rules:
  "fst (Service_ListUsers q limit offset) = [CallListUsers (ListUsers_params limit offset)] \<and>
   (100 < limit \<longrightarrow> sint (Limit (ListUsers_params limit offset)) = 100) \<and>
   (limit \<le> 0 \<longrightarrow> sint (Limit (ListUsers_params limit offset)) = 20) \<and>
   (offset < 0 \<longrightarrow> sint (Offset (ListUsers_params limit offset)) = 0) \<and>
   0 < sint (Limit (ListUsers_params limit offset)) \<and>
   sint (Limit (ListUsers_params limit offset)) \<le> 100 \<and>
   (Get (Query r) ''limit'' = [] \<longrightarrow> parse_param (Get (Query r) ''offset'') 0 = Some off \<longrightarrow>
      store_calls (HandleListUsers L q' hl r) = [CallListUsers (ListUsers_params 20 off)] \<and>
      sint (Limit (ListUsers_params 20 off)) = 20)"
proof -
  have absent: "parse_param [] 20 = Some 20"
    by (simp add: parse_param_def)
  show ?thesis
    using Limit_bounds [of limit offset] fst_Service_ListUsers [of q limit offset]
      store_calls_HandleListUsers [of r 20 off L q' hl] absent
    by (simp add: Limit_cases Offset_cases)
qed

lemma run_append_StoreCalls:
  "run (map StoreCall cs @ rest) e = run rest (e\<lparr>calls := calls e @ cs\<rparr>)"
  by (induction cs arbitrary: e) simp_all

lemma run_respondWithJSON:
  assumes "\<not> wroteHeader (ResponseWriter (writer e))" "200 \<le> code" "code \<le> 999"
  shows "snd (run (respondWithJSON L hl code payload) e) = None"
    and "calls (fst (run (respondWithJSON L hl code payload) e)) = calls e"
    and "statusCode (writer (fst (run (respondWithJSON L hl code payload) e))) = code"
    and "status (ResponseWriter (writer (fst (run (respondWithJSON L hl code payload) e)))) = code"
    and "wroteHeader (ResponseWriter (writer (fst (run (respondWithJSON L hl code payload) e))))"
    and "body (ResponseWriter (writer (fst (run (respondWithJSON L hl code payload) e)))) =
           body (ResponseWriter (writer e)) @ (if bodyAllowedForStatus code then encoded L payload else [])"
  using assms
  by (auto simp: respondWithJSON_def rw_Header_Set_def response_Header_Set_def rw_WriteHeader_def
        response_WriteHeader_def rw_Write_def response_Write_def Let_def encoded_def
      split: option.splits)

text \<open>The response a client reads when a handler answers with \<^verbatim>\<open>respondWithJSON\<close>.\<close>

lemma respond_JSON:
  assumes "200 \<le> code" "code \<le> 999"
  shows "snd (respond (map StoreCall cs @ map Log ls @ respondWithJSON L hl code payload)) = None"
    and "calls (fst (respond (map StoreCall cs @ map Log ls @ respondWithJSON L hl code payload))) = cs"
    and "status (writer (fst (respond (map StoreCall cs @ map Log ls @ respondWithJSON L hl code payload)))) = code"
    and "body (writer (fst (respond (map StoreCall cs @ map Log ls @ respondWithJSON L hl code payload)))) =
           (if bodyAllowedForStatus code then encoded L payload else [])"
proof -
  have logs: "run (map Log ls @ rest) e = run rest (e\<lparr>logs := logs e @ ls\<rparr>)" for rest e
    by (induction ls arbitrary: e) simp_all
  let ?e = "\<lparr>writer = \<lparr>ResponseWriter = new_response, statusCode = 200, bytesWritten = 0\<rparr>,
             logs = ls, calls = cs\<rparr>"
  have nw: "\<not> wroteHeader (ResponseWriter (writer ?e))"
    by (simp add: new_response_def)
  have r: "run (map StoreCall cs @ map Log ls @ respondWithJSON L hl code payload)
             \<lparr>writer = \<lparr>ResponseWriter = new_response, statusCode = 200, bytesWritten = 0\<rparr>,
              logs = [], calls = []\<rparr> = run (respondWithJSON L hl code payload) ?e"
    by (simp add: run_append_StoreCalls logs)
  have b0: "body (ResponseWriter (writer ?e)) = []"
    by (simp add: new_response_def)
  note j = run_respondWithJSON [OF nw assms, of L hl payload]
  show "snd (respond (map StoreCall cs @ map Log ls @ respondWithJSON L hl code payload)) = None"
    using j(1) by (simp add: respond_def r split_beta)
  show "calls (fst (respond (map StoreCall cs @ map Log ls @ respondWithJSON L hl code payload))) = cs"
    using j(2) by (simp add: respond_def r split_beta)
  show "status (writer (fst (respond (map StoreCall cs @ map Log ls @ respondWithJSON L hl code payload)))) = code"
    using j(4,5) by (simp add: respond_def r split_beta finishRequest_def)
  show "body (writer (fst (respond (map StoreCall cs @ map Log ls @ respondWithJSON L hl code payload)))) =
           (if bodyAllowedForStatus code then encoded L payload else [])"
    using j(5,6) b0 by (simp add: respond_def r split_beta finishRequest_def)
qed

lemmas respond_JSON_plain = respond_JSON [where cs = "[]" and ls = "[]", simplified]

lemma bodyAllowed_errors [simp]:
  "bodyAllowedForStatus 400" "bodyAllowedForStatus 404" "bodyAllowedForStatus 500"
  "bodyAllowedForStatus 200"
  by (simp_all add: bodyAllowedForStatus_def)

text \<open>
  C8. When the path value is empty or is not accepted by \<^verbatim>\<open>uuid.Parse\<close>, the handler
  answers 400 with an error object as body and makes no call on the store.
\<close>

theorem HandleGetUser_invalid_id:
  assumes "Get (PathValue r) ''id'' = [] \<or> uuid_Parse L (Get (PathValue r) ''id'') = None"
  shows "status (writer (fst (respond (HandleGetUser L q hl r)))) = 400
       \<and> snd (respond (HandleGetUser L q hl r)) = None
       \<and> body (writer (fst (respond (HandleGetUser L q hl r)))) =
           encoded L (JObject [(''error'', JString (if Get (PathValue r) ''id'' = []
                                   then ''user ID is required'' else ''invalid user ID format''))])
       \<and> calls (fst (respond (HandleGetUser L q hl r))) = []
       \<and> store_calls (HandleGetUser L q hl r) = []"
  using assms
  by (auto simp: HandleGetUser_def Let_def respondWithError_def respond_JSON_plain
        store_calls_respondWithJSON)

theorem HandleGetUser_invalid_id_witness:
  "uuid_Parse fake_libs
     (Get (PathValue (get_request ''/users/not-a-uuid'' Map.empty Map.empty [''id'' \<mapsto> ''not-a-uuid''])) ''id'') = None
   \<and> status (writer (fst (respond (HandleGetUser fake_libs empty_store base_logger
         (get_request ''/users/not-a-uuid'' Map.empty Map.empty [''id'' \<mapsto> ''not-a-uuid'']))))) = 400
   \<and> calls (fst (respond (HandleGetUser fake_libs empty_store base_logger
         (get_request ''/users/not-a-uuid'' Map.empty Map.empty [''id'' \<mapsto> ''not-a-uuid''])))) = []"
proof -
  have h: "uuid_Parse fake_libs
     (Get (PathValue (get_request ''/users/not-a-uuid'' Map.empty Map.empty [''id'' \<mapsto> ''not-a-uuid''])) ''id'') = None"
    by (simp add: fake_libs_def get_request_def Get_def)
  show ?thesis
    using h HandleGetUser_invalid_id [OF disjI2 [OF h], of empty_store base_logger]
    by simp
qed

lemma Service_GetUserByID_Inl:
  assumes "pgtype_Scan L (uuid_String uid) = Some pgID" "Querier_GetUserByID q pgID = Inl err"
  shows "Service_GetUserByID L q uid =
           ([CallGetUserByID pgID], if Is_ErrNoRows err then Inl ErrUserNotFound else Inl (StoreError err))"
  using assms by (simp add: Service_GetUserByID_def)

lemma HandleGetUser_service_error:
  assumes "Get (PathValue r) ''id'' \<noteq> []" "uuid_Parse L (Get (PathValue r) ''id'') = Some uid"
    and "Service_GetUserByID L q uid = (cs, Inl e)"
  shows "HandleGetUser L q hl r =
           (if e = ErrUserNotFound
            then map StoreCall cs @ map Log [] @
                 respondWithJSON L hl 404 (JObject [(''error'', JString ''user not found'')])
            else map StoreCall cs @
                 map Log [logger_Error hl ''failed to get user''
                            [(''error'', AStr (svc_error_Error e)),
                             (''user_id'', AStr (uuid_String uid))]] @
                 respondWithJSON L hl 500 (JObject [(''error'', JString ''internal server error'')]))"
  using assms by (simp add: HandleGetUser_def respondWithError_def)

text \<open>
  C3. When the identifier converts and the store answers with an error, the service returns
  \<open>ErrUserNotFound\<close> exactly if the error is or wraps \<^verbatim>\<open>pgx.ErrNoRows\<close>, and otherwise
  the store's error itself, which is a different error. For any error of the service the
  handler answers 404 ``user not found'' if it is \<open>ErrUserNotFound\<close> and otherwise 500 with
  the fixed message ``internal server error'', whatever the error says.
\<close>

theorem GetUserByID_error_mapping:
  "(pgtype_Scan L (uuid_String uid) = Some pgID \<longrightarrow> Querier_GetUserByID q pgID = Inl err \<longrightarrow>
      fst (Service_GetUserByID L q uid) = [CallGetUserByID pgID] \<and>
      (Is_ErrNoRows err \<longrightarrow> snd (Service_GetUserByID L q uid) = Inl ErrUserNotFound) \<and>
      (\<not> Is_ErrNoRows err \<longrightarrow> snd (Service_GetUserByID L q uid) = Inl (StoreError err)
          \<and> StoreError err \<noteq> ErrUserNotFound))
   \<and> (Get (PathValue r) ''id'' \<noteq> [] \<longrightarrow> uuid_Parse L' (Get (PathValue r) ''id'') = Some uid' \<longrightarrow>
      snd (Service_GetUserByID L' q' uid') = Inl e \<longrightarrow>
        snd (respond (HandleGetUser L' q' hl r)) = None \<and>
        status (writer (fst (respond (HandleGetUser L' q' hl r)))) =
          (if e = ErrUserNotFound then 404 else 500) \<and>
        body (writer (fst (respond (HandleGetUser L' q' hl r)))) =
          encoded L' (JObject [(''error'', JString (if e = ErrUserNotFound then ''user not found''
                                                    else ''internal server error''))]))"
proof (intro conjI impI)
  assume a: "pgtype_Scan L (uuid_String uid) = Some pgID" "Querier_GetUserByID q pgID = Inl err"
  show "fst (Service_GetUserByID L q uid) = [CallGetUserByID pgID]"
    by (simp add: Service_GetUserByID_Inl [OF a])
  show "snd (Service_GetUserByID L q uid) = Inl ErrUserNotFound" if "Is_ErrNoRows err"
    using that by (simp add: Service_GetUserByID_Inl [OF a])
  show "snd (Service_GetUserByID L q uid) = Inl (StoreError err)" if "\<not> Is_ErrNoRows err"
    using that by (simp add: Service_GetUserByID_Inl [OF a])
  show "StoreError err \<noteq> ErrUserNotFound"
    by simp
next
  assume b: "Get (PathValue r) ''id'' \<noteq> []" "uuid_Parse L' (Get (PathValue r) ''id'') = Some uid'"
    "snd (Service_GetUserByID L' q' uid') = Inl e"
  obtain cs where c: "Service_GetUserByID L' q' uid' = (cs, Inl e)"
    using b(3) by (cases "Service_GetUserByID L' q' uid'") simp
  note h = HandleGetUser_service_error [OF b(1,2) c, of hl]
  show "snd (respond (HandleGetUser L' q' hl r)) = None"
    unfolding h by (simp only: respond_JSON split: if_split, simp?)
  show "status (writer (fst (respond (HandleGetUser L' q' hl r)))) =
          (if e = ErrUserNotFound then 404 else 500)"
    unfolding h by (simp only: respond_JSON split: if_split, simp?)
  show "body (writer (fst (respond (HandleGetUser L' q' hl r)))) =
          encoded L' (JObject [(''error'', JString (if e = ErrUserNotFound then ''user not found''
                                                    else ''internal server error''))])"
    unfolding h by (simp only: respond_JSON split: if_split, simp?)
qed

theorem GetUserByID_error_mapping_witness:
  "snd (Service_GetUserByID fake_libs empty_store uuid_Nil) = Inl ErrUserNotFound
   \<and> snd (Service_GetUserByID fake_libs broken_store uuid_Nil)
       = Inl (StoreError (DriverError ''connection refused''))
   \<and> status (writer (fst (respond (HandleGetUser fake_libs empty_store base_logger
         (get_request ''/users/x'' Map.empty Map.empty
            [''id'' \<mapsto> ''00000000-0000-0000-0000-000000000000'']))))) = 404
   \<and> status (writer (fst (respond (HandleGetUser fake_libs broken_store base_logger
         (get_request ''/users/x'' Map.empty Map.empty
            [''id'' \<mapsto> ''00000000-0000-0000-0000-000000000000'']))))) = 500"
proof -
  let ?r = "get_request ''/users/x'' Map.empty Map.empty
              [''id'' \<mapsto> ''00000000-0000-0000-0000-000000000000'']"
  let ?pg = "\<lparr>Bytes = uuid_Nil, Valid = True\<rparr>"
  have scan: "pgtype_Scan fake_libs (uuid_String uuid_Nil) = Some ?pg"
    by (simp add: fake_libs_def)
  have q1: "Querier_GetUserByID empty_store ?pg = Inl ErrNoRows"
    by (simp add: empty_store_def)
  have q2: "Querier_GetUserByID broken_store ?pg = Inl (DriverError ''connection refused'')"
    by (simp add: broken_store_def)
  have i: "Get (PathValue ?r) ''id'' \<noteq> []"
    by (simp add: get_request_def Get_def)
  have p: "uuid_Parse fake_libs (Get (PathValue ?r) ''id'') = Some uuid_Nil"
    by (simp add: get_request_def Get_def fake_libs_def)
  have s1: "snd (Service_GetUserByID fake_libs empty_store uuid_Nil) = Inl ErrUserNotFound"
    by (simp add: Service_GetUserByID_def scan q1)
  have s2: "snd (Service_GetUserByID fake_libs broken_store uuid_Nil)
              = Inl (StoreError (DriverError ''connection refused''))"
    by (simp add: Service_GetUserByID_def scan q2)
  show ?thesis
    using GetUserByID_error_mapping [where L = fake_libs and uid = uuid_Nil and pgID = ?pg
        and q = empty_store and err = ErrNoRows and r = ?r and L' = fake_libs
        and uid' = uuid_Nil and q' = empty_store and e = ErrUserNotFound and hl = base_logger]
      GetUserByID_error_mapping [where L = fake_libs and uid = uuid_Nil and pgID = ?pg
        and q = broken_store and err = "DriverError ''connection refused''" and r = ?r
        and L' = fake_libs and uid' = uuid_Nil and q' = broken_store
        and e = "StoreError (DriverError ''connection refused'')" and hl = base_logger]
      scan q1 q2 i p s1 s2
    by simp
qed

lemma parse_param_nonneg: "parse_param str d = Some n \<Longrightarrow> 0 \<le> d \<Longrightarrow> 0 \<le> n"
  by (auto simp: parse_param_def split: if_splits option.splits)

lemma HandleListUsers_rejected:
  assumes "parse_param (Get (Query r) ''limit'') 20 = None \<or>
           parse_param (Get (Query r) ''offset'') 0 = None"
  shows "HandleListUsers L q hl r =
           respondWithJSON L hl 400
             (JObject [(''error'', JString (if parse_param (Get (Query r) ''limit'') 20 = None
                 then ''invalid limit parameter'' else ''invalid offset parameter''))])"
  using assms by (auto simp: HandleListUsers_def respondWithError_def split: option.splits)

lemma HandleListUsers_ok:
  assumes "parse_param (Get (Query r) ''limit'') 20 = Some limit"
    and "parse_param (Get (Query r) ''offset'') 0 = Some offset"
    and "Querier_ListUsers q (ListUsers_params limit offset) = Inr rows"
  shows "HandleListUsers L q hl r =
           map StoreCall [CallListUsers (ListUsers_params limit offset)] @ map Log [] @
           respondWithJSON L hl 200
             (JObject [(''users'', JUsers (map row_to_User rows)), (''limit'', JInt limit),
                       (''offset'', JInt offset)])"
  using assms by (simp add: HandleListUsers_def Service_ListUsers_def)

text \<open>
  C2 as the code has it. When both parameters are absent (or empty) or read by
  \<^verbatim>\<open>strconv.Atoi\<close> as non-negative integers and the query succeeds, the answer is 200 and
  the body carries the limit and offset as the handler parsed them (20 and 0 when absent),
  not the ones applied: the store is called once, with the limit itself when it is in
  1..100, with 100 when it is above 100, with 20 when it is 0, and with the offset itself
  when it is below \<open>2^31\<close>. When either parameter is given non-empty and \<^verbatim>\<open>strconv.Atoi\<close>
  rejects it or reads it as negative, the answer is 400 and the store is not called.
\<close>

theorem HandleListUsers_echo:
  "(parse_param (Get (Query r) ''limit'') 20 = Some limit \<longrightarrow>
    parse_param (Get (Query r) ''offset'') 0 = Some offset \<longrightarrow>
    Querier_ListUsers q (ListUsers_params limit offset) = Inr rows \<longrightarrow>
      status (writer (fst (respond (HandleListUsers L q hl r)))) = 200 \<and>
      body (writer (fst (respond (HandleListUsers L q hl r)))) =
        encoded L (JObject [(''users'', JUsers (map row_to_User rows)), (''limit'', JInt limit),
                            (''offset'', JInt offset)]) \<and>
      calls (fst (respond (HandleListUsers L q hl r))) = [CallListUsers (ListUsers_params limit offset)] \<and>
      0 \<le> limit \<and> 0 \<le> offset \<and>
      (Get (Query r) ''limit'' = [] \<longrightarrow> limit = 20) \<and>
      (Get (Query r) ''offset'' = [] \<longrightarrow> offset = 0) \<and>
      (1 \<le> limit \<and> limit \<le> 100 \<longrightarrow> sint (Limit (ListUsers_params limit offset)) = limit) \<and>
      (100 < limit \<longrightarrow> sint (Limit (ListUsers_params limit offset)) = 100) \<and>
      (limit = 0 \<longrightarrow> sint (Limit (ListUsers_params limit offset)) = 20) \<and>
      (offset < 2 ^ 31 \<longrightarrow> sint (Offset (ListUsers_params limit offset)) = offset))
   \<and> (parse_param (Get (Query r) ''limit'') 20 = None \<or>
       parse_param (Get (Query r) ''offset'') 0 = None \<longrightarrow>
      status (writer (fst (respond (HandleListUsers L q hl r)))) = 400 \<and>
      calls (fst (respond (HandleListUsers L q hl r))) = [])
   \<and> (parse_param str dflt = None \<longleftrightarrow>
        str \<noteq> [] \<and> (case Atoi str of None \<Rightarrow> True | Some parsed \<Rightarrow> parsed < 0))"
proof (intro conjI impI)
  assume a: "parse_param (Get (Query r) ''limit'') 20 = Some limit"
    "parse_param (Get (Query r) ''offset'') 0 = Some offset"
    "Querier_ListUsers q (ListUsers_params limit offset) = Inr rows"
  note h = HandleListUsers_ok [OF a, of L hl]
  show "status (writer (fst (respond (HandleListUsers L q hl r)))) = 200"
    unfolding h by (simp only: respond_JSON, simp?)
  show "body (writer (fst (respond (HandleListUsers L q hl r)))) =
        encoded L (JObject [(''users'', JUsers (map row_to_User rows)), (''limit'', JInt limit),
                            (''offset'', JInt offset)])"
    unfolding h by (simp only: respond_JSON, simp?)
  show "calls (fst (respond (HandleListUsers L q hl r))) = [CallListUsers (ListUsers_params limit offset)]"
    unfolding h by (simp only: respond_JSON, simp?)
  show l0: "0 \<le> limit" using parse_param_nonneg [OF a(1)] by simp
  show o0: "0 \<le> offset" using parse_param_nonneg [OF a(2)] by simp
  show "limit = 20" if "Get (Query r) ''limit'' = []"
    using that a(1) by (simp add: parse_param_def)
  show "offset = 0" if "Get (Query r) ''offset'' = []"
    using that a(2) by (simp add: parse_param_def)
  show "sint (Limit (ListUsers_params limit offset)) = limit" if "1 \<le> limit \<and> limit \<le> 100"
    using that by (simp add: Limit_cases sint_int32)
  show "sint (Limit (ListUsers_params limit offset)) = 100" if "100 < limit"
    using that by (simp add: Limit_cases)
  show "sint (Limit (ListUsers_params limit offset)) = 20" if "limit = 0"
    using that by (simp add: Limit_cases)
  show "sint (Offset (ListUsers_params limit offset)) = offset" if "offset < 2 ^ 31"
    using that o0 by (simp add: Offset_cases sint_int32)
next
  assume b: "parse_param (Get (Query r) ''limit'') 20 = None \<or>
             parse_param (Get (Query r) ''offset'') 0 = None"
  note h = HandleListUsers_rejected [OF b, of L q hl]
  show "status (writer (fst (respond (HandleListUsers L q hl r)))) = 400"
    unfolding h by (simp add: respond_JSON_plain)
  show "calls (fst (respond (HandleListUsers L q hl r))) = []"
    unfolding h by (simp add: respond_JSON_plain)
next
  show "parse_param str dflt = None \<longleftrightarrow>
        str \<noteq> [] \<and> (case Atoi str of None \<Rightarrow> True | Some parsed \<Rightarrow> parsed < 0)"
    by (simp add: parse_param_def split: option.splits)
qed

lemma Atoi_500: "Atoi ''500'' = Some 500"
  by (simp add: Atoi_def digit_val_def)

lemma Atoi_minus_5: "Atoi ''-5'' = Some (- 5)"
  by (simp add: Atoi_def digit_val_def)

lemma Atoi_0: "Atoi ''0'' = Some 0"
  by (simp add: Atoi_def digit_val_def)

text \<open>Scenario C of the specification: the negative offset is rejected.\<close>

theorem HandleListUsers_scenario_C_counterexample:
  "status (writer (fst (respond (HandleListUsers fake_libs empty_store base_logger
      (get_request ''/users'' Map.empty [''limit'' \<mapsto> ''500'', ''offset'' \<mapsto> ''-5''] Map.empty)))))
     = 400"
proof -
  have "parse_param (Get (Query (get_request ''/users'' Map.empty
          [''limit'' \<mapsto> ''500'', ''offset'' \<mapsto> ''-5''] Map.empty)) ''offset'') 0 = None"
    by (simp add: get_request_def Get_def parse_param_def Atoi_minus_5)
  then have "HandleListUsers fake_libs empty_store base_logger
      (get_request ''/users'' Map.empty [''limit'' \<mapsto> ''500'', ''offset'' \<mapsto> ''-5''] Map.empty)
      = respondWithJSON fake_libs base_logger 400
          (JObject [(''error'', JString ''invalid offset parameter'')])"
    by (simp add: HandleListUsers_rejected get_request_def Get_def parse_param_def Atoi_500)
  then show ?thesis
    by (simp add: respond_JSON_plain)
qed

text \<open>With a valid offset the limit of 500 is echoed as 500 and applied as 100.\<close>

lemma HandleListUsers_limit_500:
  "body (writer (fst (respond (HandleListUsers L empty_store base_logger
      (get_request ''/users'' Map.empty [''limit'' \<mapsto> ''500'', ''offset'' \<mapsto> ''0''] Map.empty)))))
     = encoded L (JObject [(''users'', JUsers []), (''limit'', JInt 500), (''offset'', JInt 0)])
   \<and> sint (Limit (ListUsers_params 500 0)) = 100"
proof -
  let ?r = "get_request ''/users'' Map.empty [''limit'' \<mapsto> ''500'', ''offset'' \<mapsto> ''0''] Map.empty"
  have a: "parse_param (Get (Query ?r) ''limit'') 20 = Some 500"
    by (simp add: get_request_def Get_def parse_param_def Atoi_500)
  have b: "parse_param (Get (Query ?r) ''offset'') 0 = Some 0"
    by (simp add: get_request_def Get_def parse_param_def Atoi_0)
  have c: "Querier_ListUsers empty_store (ListUsers_params 500 0) = Inr []"
    by (simp add: empty_store_def)
  show ?thesis
    unfolding HandleListUsers_ok [OF a b c]
    by (simp only: respond_JSON) (simp add: Limit_cases)
qed

theorem HandleListUsers_echo_witness:
  "status (writer (fst (respond (HandleListUsers fake_libs empty_store base_logger
      (get_request ''/users'' Map.empty [''limit'' \<mapsto> ''500'', ''offset'' \<mapsto> ''0''] Map.empty)))))
     = 200
   \<and> sint (Limit (ListUsers_params 500 0)) = 100
   \<and> sint (Limit (ListUsers_params 0 0)) = 20
   \<and> sint (Limit (ListUsers_params 50 0)) = 50
   \<and> sint (Offset (ListUsers_params 500 0)) = 0
   \<and> Get (Query (get_request ''/users'' Map.empty Map.empty Map.empty)) ''limit'' = []
   \<and> Get (Query (get_request ''/users'' Map.empty Map.empty Map.empty)) ''offset'' = []
   \<and> body (writer (fst (respond (HandleListUsers fake_libs empty_store base_logger
      (get_request ''/users'' Map.empty Map.empty Map.empty)))))
     = encoded fake_libs (JObject [(''users'', JUsers []), (''limit'', JInt 20), (''offset'', JInt 0)])
   \<and> calls (fst (respond (HandleListUsers fake_libs empty_store base_logger
      (get_request ''/users'' Map.empty Map.empty Map.empty))))
     = [CallListUsers (ListUsers_params 20 0)]
   \<and> parse_param ''-5'' 0 = None
   \<and> status (writer (fst (respond (HandleListUsers fake_libs empty_store base_logger
      (get_request ''/users'' Map.empty [''limit'' \<mapsto> ''500'', ''offset'' \<mapsto> ''-5''] Map.empty)))))
     = 400"
proof -
  let ?r = "get_request ''/users'' Map.empty [''limit'' \<mapsto> ''500'', ''offset'' \<mapsto> ''0''] Map.empty"
  let ?rd = "get_request ''/users'' Map.empty [''limit'' \<mapsto> ''500'', ''offset'' \<mapsto> ''-5''] Map.empty"
  let ?rb = "get_request ''/users'' Map.empty [''limit'' \<mapsto> ''0''] Map.empty"
  let ?rc = "get_request ''/users'' Map.empty [''limit'' \<mapsto> ''50''] Map.empty"
  let ?re = "get_request ''/users'' Map.empty Map.empty Map.empty"
  have a: "parse_param (Get (Query ?r) ''limit'') 20 = Some 500"
    by (simp add: get_request_def Get_def parse_param_def Atoi_500)
  have b: "parse_param (Get (Query ?r) ''offset'') 0 = Some 0"
    by (simp add: get_request_def Get_def parse_param_def Atoi_0)
  have c: "Querier_ListUsers empty_store (ListUsers_params l 0) = Inr []" for l
    by (simp add: empty_store_def)
  have a0: "parse_param (Get (Query ?rb) ''limit'') 20 = Some 0"
    by (simp add: get_request_def Get_def parse_param_def Atoi_0)
  have b0: "parse_param (Get (Query ?rb) ''offset'') 0 = Some 0"
    by (simp add: get_request_def Get_def parse_param_def)
  have a50: "parse_param (Get (Query ?rc) ''limit'') 20 = Some 50"
    by (simp add: get_request_def Get_def parse_param_def Atoi_def digit_val_def)
  have b50: "parse_param (Get (Query ?rc) ''offset'') 0 = Some 0"
    by (simp add: get_request_def Get_def parse_param_def)
  have d: "parse_param (Get (Query ?rd) ''offset'') 0 = None"
    by (simp add: get_request_def Get_def parse_param_def Atoi_minus_5)
  have ea: "Get (Query ?re) ''limit'' = []" "Get (Query ?re) ''offset'' = []"
    by (simp_all add: get_request_def Get_def)
  have eb: "parse_param (Get (Query ?re) ''limit'') 20 = Some 20"
    "parse_param (Get (Query ?re) ''offset'') 0 = Some 0"
    by (simp_all add: ea parse_param_def)
  have n: "''-5'' \<noteq> []" "Atoi ''-5'' = Some (- 5)"
    by (simp_all add: Atoi_minus_5)
  show ?thesis
    using HandleListUsers_echo [where r = ?r and limit = 500 and offset = 0 and q = empty_store
        and rows = "[]" and L = fake_libs and hl = base_logger]
      HandleListUsers_echo [where r = ?rb and limit = 0 and offset = 0 and q = empty_store
        and rows = "[]" and L = fake_libs and hl = base_logger]
      HandleListUsers_echo [where r = ?rc and limit = 50 and offset = 0 and q = empty_store
        and rows = "[]" and L = fake_libs and hl = base_logger]
      HandleListUsers_echo [where r = ?rd and limit = 500 and offset = 0 and q = empty_store
        and rows = "[]" and L = fake_libs and hl = base_logger and str = "''-5''" and dflt = 0]
      HandleListUsers_echo [where r = ?re and limit = 20 and offset = 0 and q = empty_store
        and rows = "[]" and L = fake_libs and hl = base_logger]
      a b c a0 b0 a50 b50 d ea eb n
    by simp
qed

lemma Atoi_2147483648: "Atoi ''2147483648'' = Some 2147483648"
  by (simp add: Atoi_def digit_val_def)

text \<open>
  C4 at an offset of \<open>2^31\<close>. The handler accepts it, the service compares it with 0 only
  and narrows it with \<^verbatim>\<open>int32(offset)\<close>, and the store is called with the offset
  \<open>-2147483648\<close>: the call into the repository carries a negative offset although the
  service is the one place that bounds the parameters. The limit is bounded before it is
  narrowed and stays in 1..100.
\<close>

theorem ListUsers_offset_narrowing:
  "parse_param (Get (Query (get_request ''/users'' Map.empty [''offset'' \<mapsto> ''2147483648'']
       Map.empty)) ''offset'') 0 = Some 2147483648
   \<and> calls (fst (respond (HandleListUsers fake_libs empty_store base_logger
       (get_request ''/users'' Map.empty [''offset'' \<mapsto> ''2147483648''] Map.empty)))) =
       [CallListUsers (ListUsers_params 20 2147483648)]
   \<and> status (writer (fst (respond (HandleListUsers fake_libs empty_store base_logger
       (get_request ''/users'' Map.empty [''offset'' \<mapsto> ''2147483648''] Map.empty))))) = 200
   \<and> fst (Service_ListUsers empty_store 20 2147483648) =
       [CallListUsers (ListUsers_params 20 2147483648)]
   \<and> sint (Limit (ListUsers_params 20 2147483648)) = 20
   \<and> sint (Offset (ListUsers_params 20 2147483648)) = - 2147483648
   \<and> sint (Offset (ListUsers_params 20 2147483648)) < 0"
proof -
  let ?r = "get_request ''/users'' Map.empty [''offset'' \<mapsto> ''2147483648''] Map.empty"
  have a: "parse_param (Get (Query ?r) ''limit'') 20 = Some 20"
    by (simp add: get_request_def Get_def parse_param_def)
  have b: "parse_param (Get (Query ?r) ''offset'') 0 = Some 2147483648"
    by (simp add: get_request_def Get_def parse_param_def Atoi_2147483648)
  have c: "Querier_ListUsers empty_store (ListUsers_params 20 2147483648) = Inr []"
    by (simp add: empty_store_def)
  note h = HandleListUsers_ok [OF a b c, of fake_libs base_logger]
  have r1: "calls (fst (respond (HandleListUsers fake_libs empty_store base_logger ?r))) =
       [CallListUsers (ListUsers_params 20 2147483648)]"
    unfolding h by (simp only: respond_JSON, simp?)
  have r2: "status (writer (fst (respond (HandleListUsers fake_libs empty_store base_logger ?r)))) = 200"
    unfolding h by (simp only: respond_JSON, simp?)
  have o: "sint (Offset (ListUsers_params 20 2147483648)) = - 2147483648"
    by (simp add: Offset_cases)
  have l: "sint (Limit (ListUsers_params 20 2147483648)) = 20"
    by (simp add: Limit_cases)
  show ?thesis
    using b r1 r2 o l by (simp add: fst_Service_ListUsers)
qed

section \<open>Properties of the process lifecycle\<close>

lemma main_drained:
  "main None None None =
     [LogInfo ''starting server'', StartServer, SignalReceived, LogInfo ''shutting down server...'',
      SrvShutdown, LogInfo ''server exited'', Cancel, DbPoolClose, TelemetryShutdown, ProcessExit 0]"
  by (simp add: main_def return_from_main_def)

text \<open>
  C9, the path on which the drain timeout elapses: \<^verbatim>\<open>srv.Shutdown\<close> returns an error,
  \<^verbatim>\<open>main\<close> logs it and calls \<^verbatim>\<open>os.Exit(1)\<close>, and the process ends without the deferred
  telemetry shutdown or the closing of the pool having run.
\<close>

theorem main_forced_shutdown_skips_hooks:
  "main None None (Some e) =
     [LogInfo ''starting server'', StartServer, SignalReceived, LogInfo ''shutting down server...'',
      SrvShutdown, LogError ''server forced to shutdown'', ProcessExit 1]
   \<and> TelemetryShutdown \<notin> set (main None None (Some e))
   \<and> DbPoolClose \<notin> set (main None None (Some e))
   \<and> TelemetryShutdown \<in> set (main None None None)"
  by (simp add: main_def os_Exit_def return_from_main_def)

end
